theory Spec2Isabelle
  imports Complex_Main
begin

section \<open>Intermittent bleed pneumatic controller simulator\<close>

text \<open>
  A shallow embedding of \<^verbatim>\<open>simulate_emissions_optimized\<close> (PC_Emissions_Sim.py) and of one
  pass of the Monte Carlo loop that calls it (pneumatics.py).

  Numbers. Python and numpy floats are modelled as \<^typ>\<open>real\<close>: finite values; infinities and
  NaN are outside the model. The simulator is given twice: in exact arithmetic
  (\<open>simulate_emissions_optimized\<close>), and with the result of each arithmetic operation rounded
  to float64 (\<open>simulate_emissions_optimized_f64\<close>), for the one property that rounding
  decides. \<^verbatim>\<open>PC_count\<close> and \<^verbatim>\<open>timesteps\<close> are \<^typ>\<open>nat\<close> (array dimensions), \<^verbatim>\<open>DTF\<close> is an
  \<^typ>\<open>int\<close>, as the caller passes it. Unit states are the integers 0 (properly operating) and
  1 (malfunctioning).

  Arrays. A one-dimensional numpy array is a list, a two-dimensional one a list of rows.
\<close>

subsection \<open>Errors\<close>

text \<open>
  The exceptions of the source are \<^verbatim>\<open>ValueError\<close>, \<^verbatim>\<open>IndexError\<close> and
  \<^verbatim>\<open>ZeroDivisionError\<close>; the constructors tell the places that raise apart:
  \<^item> \<open>InvalidParameter\<close>: the two \<^verbatim>\<open>raise ValueError\<close> of the parameter validation;
  \<^item> \<open>EmptyRatePool\<close>: \<^verbatim>\<open>np.random.choice\<close> on an empty array with a non-zero size;
  \<^item> \<open>BadProbabilities\<close>: \<^verbatim>\<open>np.random.choice\<close> rejecting its \<^verbatim>\<open>p\<close> argument;
  \<^item> \<open>ShapeMismatch\<close>: a row assignment whose right-hand side cannot be broadcast;
  \<^item> \<open>IndexError\<close>: an index out of range;
  \<^item> \<open>LowNotBelowHigh\<close>: \<^verbatim>\<open>np.random.randint\<close> with \<^verbatim>\<open>low >= high\<close>;
  \<^item> \<open>ZeroDivisionError\<close>: a division of Python numbers by zero.
\<close>

datatype error =
  InvalidParameter | EmptyRatePool | BadProbabilities | ShapeMismatch | IndexError
  | LowNotBelowHigh | ZeroDivisionError

subsection \<open>The global random stream of numpy\<close>

text \<open>
  The state of \<^verbatim>\<open>np.random\<close> is the sequence of the draws still to come and the number of
  draws consumed so far: \<open>uniform_at g k\<close> is what draw number \<open>k\<close> yields when it is read as
  a sample of \<^verbatim>\<open>random_sample\<close>, \<open>index_at g k n\<close> what it yields when it is read as an
  integer below \<open>n\<close>. Every sampling call returns the state advanced by the number of draws
  it made, so a call that fails before sampling returns the state unchanged.
\<close>

record rng =
  uniform_at :: "nat \<Rightarrow> real"
  index_at :: "nat \<Rightarrow> nat \<Rightarrow> nat"
  pos :: nat

text \<open>numpy's contract: uniform samples lie in \<open>[0, 1)\<close>, an integer below \<open>n\<close> is below \<open>n\<close>.\<close>

definition rng_ok :: "rng \<Rightarrow> bool" where
  "rng_ok g \<longleftrightarrow>
     (\<forall>k. 0 \<le> uniform_at g k \<and> uniform_at g k < 1) \<and>
     (\<forall>k n. 0 < n \<longrightarrow> index_at g k n < n)"

definition advance :: "nat \<Rightarrow> rng \<Rightarrow> rng" where
  "advance n g = g\<lparr>pos := pos g + n\<rparr>"

type_synonym 'a sampled = "(error + 'a) \<times> rng"

definition bind :: "'a sampled \<Rightarrow> ('a \<Rightarrow> rng \<Rightarrow> 'b sampled) \<Rightarrow> 'b sampled" where
  "bind m f = (case m of (Inl e, g) \<Rightarrow> (Inl e, g) | (Inr x, g) \<Rightarrow> f x g)"

text \<open>\<^verbatim>\<open>np.random.rand(n)\<close>: \<open>n\<close> uniform samples.\<close>

definition rand :: "nat \<Rightarrow> rng \<Rightarrow> real list \<times> rng" where
  "rand n g = (map (uniform_at g) [pos g..<pos g + n], advance n g)"

text \<open>
  \<^verbatim>\<open>np.random.choice(a, size=n)\<close>: \<open>n\<close> indices below \<open>len(a)\<close>, with replacement; it raises
  when \<open>a\<close> is empty and samples are asked for.
\<close>

definition choice :: "'a list \<Rightarrow> nat \<Rightarrow> rng \<Rightarrow> 'a list sampled" where
  "choice a n g =
     (if a = [] \<and> n \<noteq> 0 then (Inl EmptyRatePool, g)
      else (Inr (map (\<lambda>k. a ! index_at g k (length a)) [pos g..<pos g + n]), advance n g))"

text \<open>\<^verbatim>\<open>np.cumsum\<close>.\<close>

fun cumsum_from :: "real \<Rightarrow> real list \<Rightarrow> real list" where
  "cumsum_from acc [] = []"
| "cumsum_from acc (x # xs) = (acc + x) # cumsum_from (acc + x) xs"

definition cumsum :: "real list \<Rightarrow> real list" where
  "cumsum xs = cumsum_from 0 xs"

text \<open>
  \<^verbatim>\<open>cdf.searchsorted(u, side='right')\<close> on a sorted array: the number of entries that are
  at most \<open>u\<close>.
\<close>

definition searchsorted_right :: "real list \<Rightarrow> real \<Rightarrow> nat" where
  "searchsorted_right cdf u = length (filter (\<lambda>c. c \<le> u) cdf)"

text \<open>The tolerance of \<^verbatim>\<open>choice\<close> on the sum of \<open>p\<close>: the square root of the float64 epsilon.\<close>

definition atol :: real where
  "atol = 1 / 2 ^ 26"

text \<open>
  \<^verbatim>\<open>np.random.choice(a, size=n, p=p)\<close>: \<open>p\<close> is checked (same size as \<open>a\<close>, no negative
  entry, sum within \<open>atol\<close> of 1), then each of \<open>n\<close> uniform samples is located in the
  normalised cumulative sums of \<open>p\<close>.
\<close>

definition choice_p :: "'a list \<Rightarrow> nat \<Rightarrow> real list \<Rightarrow> rng \<Rightarrow> 'a list sampled" where
  "choice_p a n p g =
     (if a = [] \<and> n \<noteq> 0 then (Inl EmptyRatePool, g)
      else if length p \<noteq> length a then (Inl BadProbabilities, g)
      else if \<exists>x \<in> set p. x < 0 then (Inl BadProbabilities, g)
      else if \<bar>sum_list p - 1\<bar> > atol then (Inl BadProbabilities, g)
      else
        let cdf = map (\<lambda>c. c / last (cumsum p)) (cumsum p)
        in (Inr (map (\<lambda>k. a ! searchsorted_right cdf (uniform_at g k)) [pos g..<pos g + n]),
            advance n g))"

subsection \<open>Array operations\<close>

text \<open>\<^verbatim>\<open>np.clip(x, lo, hi)\<close>.\<close>

definition clip :: "real \<Rightarrow> real \<Rightarrow> real \<Rightarrow> real" where
  "clip x lo hi = min (max x lo) hi"

text \<open>\<^verbatim>\<open>np.zeros((m, n))\<close>.\<close>

definition zeros :: "nat \<Rightarrow> nat \<Rightarrow> real list list" where
  "zeros m n = replicate m (replicate n 0)"

text \<open>
  \<^verbatim>\<open>np.bincount(xs, minlength=m)\<close>: the number of occurrences of each value from 0 to the
  largest one, in at least \<open>m\<close> bins.
\<close>

definition bincount :: "nat list \<Rightarrow> nat \<Rightarrow> nat list" where
  "bincount xs minlength =
     map (count_list xs) [0..<max minlength (if xs = [] then 0 else Suc (fold max xs 0))]"

text \<open>
  The row assignment \<^verbatim>\<open>arr[t] = row\<close>: \<open>row\<close> has the length of the row it replaces, or
  length 1 (it is then broadcast); anything else raises.
\<close>

definition set_row :: "real list list \<Rightarrow> nat \<Rightarrow> real list \<Rightarrow> error + real list list" where
  "set_row arr t row =
     (if length arr \<le> t then Inl IndexError
      else if length row = length (arr ! t) then Inr (arr[t := row])
      else if length row = 1 then Inr (arr[t := replicate (length (arr ! t)) (hd row)])
      else Inl ShapeMismatch)"

subsection \<open>The simulator\<close>

text \<open>The three arrays the loop fills, and the tuple the function returns.\<close>

record arrays =
  emission_rates_each :: "real list list"
  state_history :: "real list list"
  state_history_each :: "real list list"

record sim_result = arrays +
  avg_emission_rate :: "real list"
  all_avg_emission_rate :: real
  sum_emission_rate :: "real list"
  cumulative_emission :: "real list"
  final_cumulative_emission :: real

text \<open>
  \<^verbatim>\<open>emissions = np.where(states == 0, prop_sample, malf_sample)\<close>
\<close>

definition emissions :: "nat list \<Rightarrow> real list \<Rightarrow> real list \<Rightarrow> real list" where
  "emissions states prop_sample malf_sample =
     map (\<lambda>(s, a, b). if s = 0 then a else b) (zip states (zip prop_sample malf_sample))"

text \<open>
  \<^verbatim>\<open>next_states = np.where((states == 0) & (rand_vals < p), 1,
                 np.where((states == 1) & (rand_vals < r), 0, states))\<close>
\<close>

definition next_states :: "real \<Rightarrow> real \<Rightarrow> nat list \<Rightarrow> real list \<Rightarrow> nat list" where
  "next_states p r states rand_vals =
     map (\<lambda>(s, u). if s = 0 \<and> u < p then 1 else if s = 1 \<and> u < r then 0 else s)
       (zip states rand_vals)"

text \<open>The body of \<^verbatim>\<open>for t in range(timesteps)\<close>, on the loop's variables.\<close>

definition loop_body ::
  "nat \<Rightarrow> real \<Rightarrow> real \<Rightarrow> real list \<Rightarrow> real list \<Rightarrow> nat \<Rightarrow> nat list \<times> arrays \<Rightarrow> rng
    \<Rightarrow> (nat list \<times> arrays) sampled" where
  "loop_body PC_count p r prop_sample malf_sample t sa g =
     (let states = fst sa; arrs = snd sa in
      case set_row (state_history_each arrs) t (map real states) of
        Inl e \<Rightarrow> (Inl e, g)
      | Inr she \<Rightarrow>
      let state_counts = map (\<lambda>c. real c / real PC_count) (bincount states 2) in
      case set_row (state_history arrs) t state_counts of
        Inl e \<Rightarrow> (Inl e, g)
      | Inr sh \<Rightarrow>
      case set_row (emission_rates_each arrs) t (emissions states prop_sample malf_sample) of
        Inl e \<Rightarrow> (Inl e, g)
      | Inr ere \<Rightarrow>
      let (rand_vals, g') = rand PC_count g
      in (Inr (next_states p r states rand_vals,
               \<lparr>emission_rates_each = ere, state_history = sh, state_history_each = she\<rparr>), g'))"

text \<open>
  \<^verbatim>\<open>for t in range(..)\<close>: the body runs on each \<open>t\<close> in turn, on the variables and the
  random state the previous pass left; an exception ends the loop.
\<close>

fun for_range ::
  "(nat \<Rightarrow> 's \<Rightarrow> rng \<Rightarrow> 's sampled) \<Rightarrow> nat list \<Rightarrow> 's \<Rightarrow> rng \<Rightarrow> 's sampled" where
  "for_range body [] s g = (Inr s, g)"
| "for_range body (t # ts) s g = bind (body t s g) (for_range body ts)"

text \<open>
  The emission summaries after the loop. \<^verbatim>\<open>np.mean(.., axis=1)\<close> divides each row's sum by
  the number of columns, \<^verbatim>\<open>np.mean\<close> of a series by its length; \<^verbatim>\<open>cumulative_emission[-1]\<close>
  raises on an empty series.
\<close>

definition summaries :: "nat \<Rightarrow> real \<Rightarrow> arrays \<Rightarrow> error + sim_result" where
  "summaries PC_count scfh_to_metric_tons_per_day arrs =
     (let avg = map (\<lambda>row. sum_list row / real PC_count) (emission_rates_each arrs);
          all_avg = sum_list avg / real (length avg);
          sum_rate = map sum_list (emission_rates_each arrs);
          cumulative = map (\<lambda>c. c * scfh_to_metric_tons_per_day) (cumsum sum_rate)
      in if cumulative = [] then Inl IndexError
         else Inr \<lparr>emission_rates_each = emission_rates_each arrs,
                   state_history = state_history arrs,
                   state_history_each = state_history_each arrs,
                   avg_emission_rate = avg,
                   all_avg_emission_rate = all_avg,
                   sum_emission_rate = sum_rate,
                   cumulative_emission = cumulative,
                   final_cumulative_emission = last cumulative\<rparr>)"

text \<open>
  The function, in the order of the source: the two validations, the clipping, the three
  samplings, the preallocation of the arrays, the loop, the summaries. The transition
  matrix \<^verbatim>\<open>P\<close> that the source builds is never read and has no part in the model.
  With \<open>PC_count = 0\<close> numpy divides by zero and yields NaN where the model yields 0; the
  theorems on results assume at least one unit.
\<close>

definition simulate_emissions_optimized ::
  "nat \<Rightarrow> int \<Rightarrow> real \<Rightarrow> nat \<Rightarrow> real \<Rightarrow> real \<Rightarrow> real \<Rightarrow> real \<Rightarrow> real list \<Rightarrow> real list \<Rightarrow> rng
    \<Rightarrow> sim_result sampled" where
  "simulate_emissions_optimized PC_count DTF S0 timesteps p_gas S1 p r prop_rates malf_rates g =
     (let scfh_to_metric_tons_per_day = 24 * p_gas in
      if \<not> (0 \<le> S0 \<and> S0 \<le> 1) then (Inl InvalidParameter, g)
      else if \<not> (0 < DTF) then (Inl InvalidParameter, g)
      else
        let p = clip p 0 1; r = clip r 0 1 in
        bind (choice prop_rates PC_count g) (\<lambda>prop_sample g1.
        bind (choice malf_rates PC_count g1) (\<lambda>malf_sample g2.
        bind (choice_p [0, 1] PC_count [S0, S1] g2) (\<lambda>states g3.
        bind (for_range (loop_body PC_count p r prop_sample malf_sample) [0..<timesteps]
               (states,
                \<lparr>emission_rates_each = zeros timesteps PC_count,
                 state_history = zeros timesteps 2,
                 state_history_each = zeros timesteps PC_count\<rparr>) g3)
          (\<lambda>sa g4. (summaries PC_count scfh_to_metric_tons_per_day (snd sa), g4))))))"

subsection \<open>The simulator in float64 arithmetic\<close>

text \<open>
  The definitions above compute in exact arithmetic. The ones of this subsection round the
  result of every arithmetic operation of the source as float64 does: to 53 significant
  bits, to the nearest value and on a tie to the one with an even last bit, with the
  smallest step \<open>2 ^ -1074\<close> of the subnormal numbers. A result of magnitude \<open>2 ^ 1024\<close> or
  more is an infinity in numpy and stays outside the model, as NaN does. The inputs are
  taken to be float64 values.
\<close>

definition pow2 :: "int \<Rightarrow> real" where
  "pow2 e = (if 0 \<le> e then 2 ^ nat e else 1 / 2 ^ nat (- e))"

text \<open>
  The exponent of the leading bit of a positive number, found by halving or doubling at most
  \<open>n\<close> times: \<open>2 ^ e \<le> x < 2 ^ (e + 1)\<close> for \<open>2 ^ -n \<le> x < 2 ^ (n + 1)\<close>.
\<close>

fun log2_floor :: "nat \<Rightarrow> real \<Rightarrow> int" where
  "log2_floor 0 x = 0"
| "log2_floor (Suc n) x =
     (if x < 1 then log2_floor n (2 * x) - 1
      else if 2 \<le> x then log2_floor n (x / 2) + 1
      else 0)"

text \<open>The nearest integer, the even one of the two on a tie.\<close>

definition round_even :: "real \<Rightarrow> int" where
  "round_even x =
     (let f = \<lfloor>x\<rfloor>; d = x - of_int f
      in if d < 1 / 2 then f else if 1 / 2 < d then f + 1 else if even f then f else f + 1)"

text \<open>The float64 value nearest to \<open>x\<close>: \<open>x\<close> in units of the step of its binade, rounded.\<close>

definition round64 :: "real \<Rightarrow> real" where
  "round64 x =
     (if x = 0 then 0
      else
        let a = \<bar>x\<bar>;
            q = pow2 (max (- 1074) (log2_floor 1100 a - 52))
        in sgn x * (of_int (round_even (a / q)) * q))"

text \<open>
  \<^verbatim>\<open>np.add.reduce\<close> on a row of fewer than 8 entries: the entries are added from left to
  right. (Longer rows are added pairwise, in another order; the definitions below take the
  summation as the parameter \<open>add_reduce\<close>, the same for \<^verbatim>\<open>np.sum\<close> and \<^verbatim>\<open>np.mean\<close>, which
  both call \<^verbatim>\<open>np.add.reduce\<close>.)
\<close>

definition add_reduce_f64 :: "real list \<Rightarrow> real" where
  "add_reduce_f64 xs = foldl (\<lambda>acc x. round64 (acc + x)) 0 xs"

text \<open>\<^verbatim>\<open>np.cumsum\<close>, which adds the entries one after the other.\<close>

fun cumsum_from_f64 :: "real \<Rightarrow> real list \<Rightarrow> real list" where
  "cumsum_from_f64 acc [] = []"
| "cumsum_from_f64 acc (x # xs) = round64 (acc + x) # cumsum_from_f64 (round64 (acc + x)) xs"

definition cumsum_f64 :: "real list \<Rightarrow> real list" where
  "cumsum_f64 xs = cumsum_from_f64 0 xs"

text \<open>The body of the loop; its one arithmetic operation is the division of the counts.\<close>

definition loop_body_f64 ::
  "nat \<Rightarrow> real \<Rightarrow> real \<Rightarrow> real list \<Rightarrow> real list \<Rightarrow> nat \<Rightarrow> nat list \<times> arrays \<Rightarrow> rng
    \<Rightarrow> (nat list \<times> arrays) sampled" where
  "loop_body_f64 PC_count p r prop_sample malf_sample t sa g =
     (let states = fst sa; arrs = snd sa in
      case set_row (state_history_each arrs) t (map real states) of
        Inl e \<Rightarrow> (Inl e, g)
      | Inr she \<Rightarrow>
      let state_counts = map (\<lambda>c. round64 (real c / real PC_count)) (bincount states 2) in
      case set_row (state_history arrs) t state_counts of
        Inl e \<Rightarrow> (Inl e, g)
      | Inr sh \<Rightarrow>
      case set_row (emission_rates_each arrs) t (emissions states prop_sample malf_sample) of
        Inl e \<Rightarrow> (Inl e, g)
      | Inr ere \<Rightarrow>
      let (rand_vals, g') = rand PC_count g
      in (Inr (next_states p r states rand_vals,
               \<lparr>emission_rates_each = ere, state_history = sh, state_history_each = she\<rparr>), g'))"

text \<open>
  The emission summaries: \<^verbatim>\<open>np.mean\<close> is \<^verbatim>\<open>np.add.reduce\<close> followed by one division by the
  number of entries, \<^verbatim>\<open>np.sum\<close> is \<^verbatim>\<open>np.add.reduce\<close>.
\<close>

definition summaries_f64 ::
  "(real list \<Rightarrow> real) \<Rightarrow> nat \<Rightarrow> real \<Rightarrow> arrays \<Rightarrow> error + sim_result" where
  "summaries_f64 add_reduce PC_count scfh_to_metric_tons_per_day arrs =
     (let avg = map (\<lambda>row. round64 (add_reduce row / real PC_count)) (emission_rates_each arrs);
          all_avg = round64 (add_reduce avg / real (length avg));
          sum_rate = map add_reduce (emission_rates_each arrs);
          cumulative = map (\<lambda>c. round64 (c * scfh_to_metric_tons_per_day)) (cumsum_f64 sum_rate)
      in if cumulative = [] then Inl IndexError
         else Inr \<lparr>emission_rates_each = emission_rates_each arrs,
                   state_history = state_history arrs,
                   state_history_each = state_history_each arrs,
                   avg_emission_rate = avg,
                   all_avg_emission_rate = all_avg,
                   sum_emission_rate = sum_rate,
                   cumulative_emission = cumulative,
                   final_cumulative_emission = last cumulative\<rparr>)"

text \<open>
  The function, as \<open>simulate_emissions_optimized\<close> with the rounded operations: the product
  \<^verbatim>\<open>24 * p_gas\<close>, the division of the counts, the sums, the means and the scaling of the
  cumulative sums. The sampling calls of numpy are the ones of the exact model (which
  states are drawn has no part in how a row is summed and averaged).
\<close>

definition simulate_emissions_optimized_f64 ::
  "(real list \<Rightarrow> real) \<Rightarrow> nat \<Rightarrow> int \<Rightarrow> real \<Rightarrow> nat \<Rightarrow> real \<Rightarrow> real \<Rightarrow> real \<Rightarrow> real
    \<Rightarrow> real list \<Rightarrow> real list \<Rightarrow> rng \<Rightarrow> sim_result sampled" where
  "simulate_emissions_optimized_f64 add_reduce PC_count DTF S0 timesteps p_gas S1 p r
      prop_rates malf_rates g =
     (let scfh_to_metric_tons_per_day = round64 (24 * p_gas) in
      if \<not> (0 \<le> S0 \<and> S0 \<le> 1) then (Inl InvalidParameter, g)
      else if \<not> (0 < DTF) then (Inl InvalidParameter, g)
      else
        let p = clip p 0 1; r = clip r 0 1 in
        bind (choice prop_rates PC_count g) (\<lambda>prop_sample g1.
        bind (choice malf_rates PC_count g1) (\<lambda>malf_sample g2.
        bind (choice_p [0, 1] PC_count [S0, S1] g2) (\<lambda>states g3.
        bind (for_range (loop_body_f64 PC_count p r prop_sample malf_sample) [0..<timesteps]
               (states,
                \<lparr>emission_rates_each = zeros timesteps PC_count,
                 state_history = zeros timesteps 2,
                 state_history_each = zeros timesteps PC_count\<rparr>) g3)
          (\<lambda>sa g4.
            (summaries_f64 add_reduce PC_count scfh_to_metric_tons_per_day (snd sa), g4))))))"

subsection \<open>The Monte Carlo driver: one trial\<close>

text \<open>
  \<^verbatim>\<open>np.random.randint(low, high)\<close>: one integer in \<open>[low, high)\<close>; it raises when
  \<^verbatim>\<open>low >= high\<close>.
\<close>

definition randint :: "int \<Rightarrow> int \<Rightarrow> rng \<Rightarrow> int sampled" where
  "randint low high g =
     (if high \<le> low then (Inl LowNotBelowHigh, g)
      else (Inr (low + int (index_at g (pos g) (nat (high - low)))), advance 1 g))"

text \<open>\<^verbatim>\<open>np.random.uniform(low, high)\<close>: \<open>low + (high - low) * random_sample()\<close>.\<close>

definition uniform :: "real \<Rightarrow> real \<Rightarrow> rng \<Rightarrow> real \<times> rng" where
  "uniform low high g = (low + (high - low) * uniform_at g (pos g), advance 1 g)"

text \<open>
  The division \<^verbatim>\<open>a / b\<close> of Python floats: without a \<^verbatim>\<open>size\<close> argument
  \<^verbatim>\<open>np.random.uniform\<close> returns a Python float and \<^verbatim>\<open>np.random.randint\<close> a Python int,
  so the two divisions of the driver are Python's, which raise on a zero divisor.
\<close>

definition py_div :: "real \<Rightarrow> real \<Rightarrow> error + real" where
  "py_div a b = (if b = 0 then Inl ZeroDivisionError else Inr (a / b))"

text \<open>What one pass of the loop appends to the four lists of the driver.\<close>

record trial =
  trial_DTF :: int
  trial_S0 :: real
  trial_all_avg_emission_rate :: real
  trial_final_cumulative_emission :: real

text \<open>
  One pass of \<^verbatim>\<open>for _ in range(MC_runs)\<close> (pneumatics.py, lines 102 to 117): the two
  draws, the derivation of \<open>S1\<close>, \<open>p\<close> and \<open>r\<close>, and the call of the simulator with them.
  \<open>PC_count\<close>, \<open>timesteps\<close>, \<open>p_gas\<close>, the bounds and the pools are the driver's globals.
\<close>

definition monte_carlo_trial ::
  "nat \<Rightarrow> nat \<Rightarrow> real \<Rightarrow> int \<Rightarrow> int \<Rightarrow> real \<Rightarrow> real \<Rightarrow> real list \<Rightarrow> real list \<Rightarrow> rng
    \<Rightarrow> trial sampled" where
  "monte_carlo_trial PC_count timesteps p_gas DTF_min DTF_max S0_min S0_max prop_rates
      malf_rates g =
     bind (randint DTF_min (DTF_max + 1) g) (\<lambda>d g1.
       let DTF = max 1 d in
       case uniform S0_min S0_max g1 of (S0, g2) \<Rightarrow>
       let S1 = 1 - S0 in
       bind (py_div S0 (real_of_int DTF), g2) (\<lambda>p g2.
       bind (py_div p S1, g2) (\<lambda>q g2.
       let r = q - p in
       bind (simulate_emissions_optimized PC_count DTF S0 timesteps p_gas S1 p r
               prop_rates malf_rates g2)
         (\<lambda>res g3.
           (Inr \<lparr>trial_DTF = DTF, trial_S0 = S0,
                  trial_all_avg_emission_rate = all_avg_emission_rate res,
                  trial_final_cumulative_emission = final_cumulative_emission res\<rparr>, g3)))))"

subsection \<open>A run in closed form\<close>

text \<open>
  Auxiliary notions for the proofs: what a run on valid inputs computes, as functions of
  the inputs and of the random state \<open>g\<close> it starts on.
\<close>

text \<open>A state vector holds only the values 0 and 1.\<close>

definition binary :: "nat list \<Rightarrow> bool" where
  "binary xs \<longleftrightarrow> set xs \<subseteq> {0, 1}"

text \<open>The values \<^verbatim>\<open>choice(a, size=n)\<close> picks on \<open>g\<close>.\<close>

definition picks :: "'a list \<Rightarrow> nat \<Rightarrow> rng \<Rightarrow> 'a list" where
  "picks a n g = map (\<lambda>k. a ! index_at g k (length a)) [pos g..<pos g + n]"

text \<open>
  The initial states \<^verbatim>\<open>choice([0, 1], size=n, p=[S0, S1])\<close> picks on \<open>g\<close>: a unit starts
  in state 0 when its sample is below the first normalised cumulative sum of \<open>[S0, S1]\<close>,
  which is \<open>S0\<close> when \<open>S1 = 1 - S0\<close>.
\<close>

definition initial_states :: "real \<Rightarrow> real \<Rightarrow> nat \<Rightarrow> rng \<Rightarrow> nat list" where
  "initial_states S0 S1 n g =
     map (\<lambda>k. if uniform_at g k < S0 / (S0 + S1) then 0 else 1) [pos g..<pos g + n]"

text \<open>The states at the start of step \<open>t\<close> of a loop entered with states \<open>s0\<close> on \<open>g\<close>.\<close>

fun states_at :: "real \<Rightarrow> real \<Rightarrow> nat \<Rightarrow> rng \<Rightarrow> nat list \<Rightarrow> nat \<Rightarrow> nat list" where
  "states_at p r n g s0 0 = s0"
| "states_at p r n g s0 (Suc t) =
     next_states p r (states_at p r n g s0 t)
       (map (uniform_at g) [pos g + t * n..<pos g + t * n + n])"

text \<open>An array of \<open>T\<close> rows of which the first \<open>k\<close> are filled and the others still zero.\<close>

definition rows :: "nat \<Rightarrow> (nat \<Rightarrow> real list) \<Rightarrow> nat \<Rightarrow> nat \<Rightarrow> real list list" where
  "rows k f n T = map (\<lambda>t. if t < k then f t else replicate n 0) [0..<T]"

text \<open>The two population fractions of a state vector.\<close>

definition fractions :: "nat \<Rightarrow> nat list \<Rightarrow> real list" where
  "fractions n s = [real (count_list s 0) / real n, real (count_list s 1) / real n]"

text \<open>The states at step \<open>t\<close> of the run, and the three arrays it fills.\<close>

definition sim_states ::
  "nat \<Rightarrow> real \<Rightarrow> real \<Rightarrow> real \<Rightarrow> real \<Rightarrow> rng \<Rightarrow> nat \<Rightarrow> nat list" where
  "sim_states n S0 S1 p r g t =
     states_at (clip p 0 1) (clip r 0 1) n (advance (3 * n) g)
       (initial_states S0 S1 n (advance (2 * n) g)) t"

definition sim_arrays ::
  "nat \<Rightarrow> real \<Rightarrow> real \<Rightarrow> nat \<Rightarrow> real \<Rightarrow> real \<Rightarrow> real list \<Rightarrow> real list \<Rightarrow> rng
    \<Rightarrow> arrays" where
  "sim_arrays n S0 S1 T p r prop_rates malf_rates g =
     \<lparr>emission_rates_each =
        map (\<lambda>t. emissions (sim_states n S0 S1 p r g t) (picks prop_rates n g)
                   (picks malf_rates n (advance n g))) [0..<T],
      state_history = map (\<lambda>t. fractions n (sim_states n S0 S1 p r g t)) [0..<T],
      state_history_each = map (\<lambda>t. map real (sim_states n S0 S1 p r g t)) [0..<T]\<rparr>"

text \<open>The same for the run in float64 arithmetic.\<close>

definition fractions_f64 :: "nat \<Rightarrow> nat list \<Rightarrow> real list" where
  "fractions_f64 n s =
     [round64 (real (count_list s 0) / real n), round64 (real (count_list s 1) / real n)]"

definition sim_arrays_f64 ::
  "nat \<Rightarrow> real \<Rightarrow> real \<Rightarrow> nat \<Rightarrow> real \<Rightarrow> real \<Rightarrow> real list \<Rightarrow> real list \<Rightarrow> rng
    \<Rightarrow> arrays" where
  "sim_arrays_f64 n S0 S1 T p r prop_rates malf_rates g =
     \<lparr>emission_rates_each =
        map (\<lambda>t. emissions (sim_states n S0 S1 p r g t) (picks prop_rates n g)
                   (picks malf_rates n (advance n g))) [0..<T],
      state_history = map (\<lambda>t. fractions_f64 n (sim_states n S0 S1 p r g t)) [0..<T],
      state_history_each = map (\<lambda>t. map real (sim_states n S0 S1 p r g t)) [0..<T]\<rparr>"

text \<open>A random state for the examples: every uniform sample is 1/2, every index 0.\<close>

definition g0 :: rng where
  "g0 = \<lparr>uniform_at = (\<lambda>k. 1 / 2), index_at = (\<lambda>k n. 0), pos = 0\<rparr>"

text \<open>
  A second one, on which the draws of \<^verbatim>\<open>choice\<close> run through the pool: index number \<open>k\<close>
  is \<open>k mod n\<close>.
\<close>

definition g_cycle :: rng where
  "g_cycle = \<lparr>uniform_at = (\<lambda>k. 1 / 2), index_at = (\<lambda>k n. k mod n), pos = 0\<rparr>"

section \<open>Lemmas\<close>

subsection \<open>The random state and the sampling calls\<close>

lemma pos_advance [simp]: "pos (advance n g) = pos g + n"
  and uniform_at_advance [simp]: "uniform_at (advance n g) = uniform_at g"
  and index_at_advance [simp]: "index_at (advance n g) = index_at g"
  by (simp_all add: advance_def)

lemma advance_advance [simp]: "advance m (advance n g) = advance (n + m) g"
  by (simp add: advance_def add.assoc)

lemma advance_0 [simp]: "advance 0 g = g"
  by (simp add: advance_def)

lemma rng_ok_advance [simp]: "rng_ok (advance n g) = rng_ok g"
  by (simp add: rng_ok_def)

lemma bind_Inr [simp]: "bind (Inr x, g) f = f x g"
  and bind_Inl [simp]: "bind (Inl e, g) f = (Inl e, g)"
  by (simp_all add: bind_def)

lemma choice_nonempty:
  "a \<noteq> [] \<Longrightarrow> choice a n g =
     (Inr (map (\<lambda>k. a ! index_at g k (length a)) [pos g..<pos g + n]), advance n g)"
  by (simp add: choice_def)

lemma choice_empty: "0 < n \<Longrightarrow> choice [] n g = (Inl EmptyRatePool, g)"
  by (simp add: choice_def)

lemma choice_p_states:
  assumes "0 \<le> S0" "0 \<le> S1" "\<bar>S0 + S1 - 1\<bar> \<le> atol" "rng_ok g"
  shows "choice_p [a0, a1] n [S0, S1] g =
     (Inr (map (\<lambda>k. if uniform_at g k < S0 / (S0 + S1) then a0 else a1) [pos g..<pos g + n]),
      advance n g)"
proof -
  have "atol < 1"
    by (simp add: atol_def)
  with assms(3) have pos: "0 < S0 + S1"
    by linarith
  have u: "uniform_at g k < 1" for k
    using assms(4) by (simp add: rng_ok_def)
  have "[a0, a1] ! searchsorted_right [S0 / (S0 + S1), 1] (uniform_at g k) =
      (if uniform_at g k < S0 / (S0 + S1) then a0 else a1)" for k
    using u [of k] by (simp add: searchsorted_right_def)
  moreover have "map (\<lambda>c. c / last (cumsum [S0, S1])) (cumsum [S0, S1]) = [S0 / (S0 + S1), 1]"
    using pos by (simp add: cumsum_def)
  moreover have "\<not> (\<exists>x \<in> set [S0, S1]. x < 0)" "\<not> \<bar>sum_list [S0, S1] - 1\<bar> > atol"
    using assms(1,2,3) by auto
  ultimately show ?thesis
    by (simp add: choice_p_def)
qed

subsection \<open>Counting the states\<close>

lemma fold_max_le: "(\<forall>x \<in> set xs. x \<le> b) \<Longrightarrow> a \<le> b \<Longrightarrow> fold max xs (a::nat) \<le> b"
  by (induction xs arbitrary: a) auto

lemma bincount_binary:
  assumes "binary xs"
  shows "bincount xs 2 = [count_list xs 0, count_list xs 1]"
proof -
  have "fold max xs 0 \<le> 1"
    using assms by (intro fold_max_le) (auto simp: binary_def)
  then have "max 2 (if xs = [] then 0 else Suc (fold max xs 0)) = 2"
    by auto
  moreover have "[0..<2] = [0, Suc 0]"
    by (simp add: upt_rec)
  ultimately show ?thesis
    by (simp add: bincount_def)
qed

lemma count_binary:
  "binary xs \<Longrightarrow> count_list xs 0 + count_list xs 1 = length xs"
  unfolding binary_def by (induction xs) auto

subsection \<open>The loop\<close>

lemma rows_0: "rows 0 f n T = zeros T n"
  by (simp add: rows_def zeros_def map_replicate_const)

lemma rows_full: "rows T f n T = map f [0..<T]"
  by (simp add: rows_def)

lemma length_rows [simp]: "length (rows k f n T) = T"
  by (simp add: rows_def)

lemma set_row_rows:
  assumes "k < T" "length (f k) = n"
  shows "set_row (rows k f n T) k (f k) = Inr (rows (Suc k) f n T)"
proof -
  have "(rows k f n T)[k := f k] = rows (Suc k) f n T"
    using assms(1) by (intro nth_equalityI) (auto simp: rows_def nth_list_update less_Suc_eq)
  moreover have "length (rows k f n T ! k) = n"
    using assms(1) by (simp add: rows_def)
  ultimately show ?thesis
    using assms by (simp add: set_row_def)
qed

lemma length_next_states [simp]:
  "length (next_states p r s us) = min (length s) (length us)"
  by (simp add: next_states_def)

lemma set_next_states:
  assumes "binary s"
  shows "binary (next_states p r s us)"
  unfolding binary_def
proof
  fix x
  assume "x \<in> set (next_states p r s us)"
  then obtain a u where au: "(a, u) \<in> set (zip s us)"
    and x: "x = (if a = 0 \<and> u < p then 1 else if a = 1 \<and> u < r then 0 else a)"
    by (auto simp: next_states_def)
  from au have "a \<in> set s"
    by (rule set_zip_leftD)
  with assms have "a = 0 \<or> a = 1"
    by (auto simp: binary_def)
  with x show "x \<in> {0, 1}"
    by auto
qed

lemma length_states_at [simp]: "length s0 = n \<Longrightarrow> length (states_at p r n g s0 t) = n"
  by (induction t) auto

lemma set_states_at:
  assumes "binary s0"
  shows "binary (states_at p r n g s0 t)"
proof (induction t)
  case 0
  show ?case using assms by simp
next
  case (Suc t)
  from set_next_states [OF Suc.IH] show ?case by simp
qed

lemma length_emissions [simp]:
  "length (emissions s ps ms) = min (length s) (min (length ps) (length ms))"
  by (simp add: emissions_def)

lemma loop_body_step:
  assumes "length s0 = n" "binary s0" "length ps = n" "length ms = n" "k < T"
  shows "loop_body n p r ps ms k
      (states_at p r n g s0 k,
       \<lparr>emission_rates_each = rows k (\<lambda>t. emissions (states_at p r n g s0 t) ps ms) n T,
        state_history = rows k (\<lambda>t. fractions n (states_at p r n g s0 t)) 2 T,
        state_history_each = rows k (\<lambda>t. map real (states_at p r n g s0 t)) n T\<rparr>)
      (advance (k * n) g) =
     (Inr (states_at p r n g s0 (Suc k),
       \<lparr>emission_rates_each = rows (Suc k) (\<lambda>t. emissions (states_at p r n g s0 t) ps ms) n T,
        state_history = rows (Suc k) (\<lambda>t. fractions n (states_at p r n g s0 t)) 2 T,
        state_history_each = rows (Suc k) (\<lambda>t. map real (states_at p r n g s0 t)) n T\<rparr>),
      advance (Suc k * n) g)"
proof -
  let ?s = "states_at p r n g s0 k"
  have bin: "map (\<lambda>c. real c / real n) (bincount ?s 2) = fractions n ?s"
    using set_states_at [OF assms(2)] by (simp add: bincount_binary fractions_def)
  have a: "set_row (rows k (\<lambda>t. map real (states_at p r n g s0 t)) n T) k (map real ?s)
      = Inr (rows (Suc k) (\<lambda>t. map real (states_at p r n g s0 t)) n T)"
    using assms by (intro set_row_rows) simp_all
  have b: "set_row (rows k (\<lambda>t. fractions n (states_at p r n g s0 t)) 2 T) k (fractions n ?s)
      = Inr (rows (Suc k) (\<lambda>t. fractions n (states_at p r n g s0 t)) 2 T)"
    using assms by (intro set_row_rows) (simp_all add: fractions_def)
  have c: "set_row (rows k (\<lambda>t. emissions (states_at p r n g s0 t) ps ms) n T) k
        (emissions ?s ps ms)
      = Inr (rows (Suc k) (\<lambda>t. emissions (states_at p r n g s0 t) ps ms) n T)"
    using assms by (intro set_row_rows) simp_all
  show ?thesis
    by (simp add: loop_body_def a b c bin rand_def add.commute)
qed

lemma for_range_loop:
  assumes "length s0 = n" "binary s0" "length ps = n" "length ms = n"
  shows "k \<le> T \<Longrightarrow> for_range (loop_body n p r ps ms) [k..<T]
      (states_at p r n g s0 k,
       \<lparr>emission_rates_each = rows k (\<lambda>t. emissions (states_at p r n g s0 t) ps ms) n T,
        state_history = rows k (\<lambda>t. fractions n (states_at p r n g s0 t)) 2 T,
        state_history_each = rows k (\<lambda>t. map real (states_at p r n g s0 t)) n T\<rparr>)
      (advance (k * n) g) =
     (Inr (states_at p r n g s0 T,
       \<lparr>emission_rates_each = map (\<lambda>t. emissions (states_at p r n g s0 t) ps ms) [0..<T],
        state_history = map (\<lambda>t. fractions n (states_at p r n g s0 t)) [0..<T],
        state_history_each = map (\<lambda>t. map real (states_at p r n g s0 t)) [0..<T]\<rparr>),
      advance (T * n) g)"
proof (induction "T - k" arbitrary: k)
  case 0
  then have "k = T" by simp
  then show ?case by (simp add: rows_full)
next
  case (Suc d)
  then have lt: "k < T" and d: "d = T - Suc k" and le: "Suc k \<le> T"
    by simp_all
  have "[k..<T] = k # [Suc k..<T]"
    using lt by (simp add: upt_conv_Cons)
  then show ?case
    using Suc.hyps(1) [OF d le] loop_body_step [OF assms lt, of p r g]
    by simp
qed

subsection \<open>A run on valid inputs\<close>

lemma length_picks [simp]: "length (picks a n g) = n"
  by (simp add: picks_def)

lemma set_picks: "rng_ok g \<Longrightarrow> a \<noteq> [] \<Longrightarrow> set (picks a n g) \<subseteq> set a"
  by (auto simp: picks_def rng_ok_def)

lemma length_initial_states [simp]: "length (initial_states S0 S1 n g) = n"
  by (simp add: initial_states_def)

lemma set_initial_states: "binary (initial_states S0 S1 n g)"
  by (auto simp: initial_states_def binary_def)

lemma length_sim_states [simp]: "length (sim_states n S0 S1 p r g t) = n"
  by (simp add: sim_states_def)

lemma set_sim_states: "binary (sim_states n S0 S1 p r g t)"
  unfolding sim_states_def by (rule set_states_at) (rule set_initial_states)

lemma simulate_closed_form:
  assumes "0 \<le> S0" "S0 \<le> 1" "0 < DTF" "0 \<le> S1" "\<bar>S0 + S1 - 1\<bar> \<le> atol"
    and "prop_rates \<noteq> []" "malf_rates \<noteq> []" "rng_ok g"
  shows "simulate_emissions_optimized n DTF S0 T p_gas S1 p r prop_rates malf_rates g =
     (summaries n (24 * p_gas) (sim_arrays n S0 S1 T p r prop_rates malf_rates g),
      advance (3 * n + T * n) g)"
proof -
  let ?ps = "picks prop_rates n g" and ?ms = "picks malf_rates n (advance n g)"
  let ?s0 = "initial_states S0 S1 n (advance (2 * n) g)"
  let ?g3 = "advance (3 * n) g"
  have c1: "choice prop_rates n g = (Inr ?ps, advance n g)"
    using assms(6) by (simp add: choice_nonempty picks_def)
  have c2: "choice malf_rates n (advance n g) = (Inr ?ms, advance (2 * n) g)"
    using assms(7) by (simp add: choice_nonempty picks_def mult_2)
  have "choice_p [0, 1] n [S0, S1] (advance (2 * n) g) =
      (Inr ?s0, advance n (advance (2 * n) g))"
    unfolding initial_states_def using assms(1,4,5)
    by (rule choice_p_states) (simp add: assms(8))
  moreover have "advance n (advance (2 * n) g) = ?g3"
    by simp
  ultimately have c3: "choice_p [0, 1] n [S0, S1] (advance (2 * n) g) = (Inr ?s0, ?g3)"
    by simp
  have loop: "for_range (loop_body n (clip p 0 1) (clip r 0 1) ?ps ?ms) [0..<T]
      (?s0, \<lparr>emission_rates_each = zeros T n, state_history = zeros T 2,
             state_history_each = zeros T n\<rparr>) ?g3 =
      (Inr (sim_states n S0 S1 p r g T, sim_arrays n S0 S1 T p r prop_rates malf_rates g),
       advance (3 * n + T * n) g)"
    using for_range_loop [of ?s0 n ?ps ?ms 0 T "clip p 0 1" "clip r 0 1" ?g3]
    by (simp add: set_initial_states rows_0 sim_states_def sim_arrays_def)
  show ?thesis
    using assms(1,2,3)
    by (simp add: simulate_emissions_optimized_def c1 c2 c3 loop del: One_nat_def)
qed

subsection \<open>Cumulative sums and the summaries\<close>

lemma length_cumsum_from [simp]: "length (cumsum_from acc xs) = length xs"
  by (induction xs arbitrary: acc) auto

lemma length_cumsum [simp]: "length (cumsum xs) = length xs"
  by (simp add: cumsum_def)

lemma cumsum_from_nth:
  "i < length xs \<Longrightarrow> cumsum_from acc xs ! i = acc + sum_list (take (Suc i) xs)"
proof (induction xs arbitrary: acc i)
  case Nil
  then show ?case by simp
next
  case (Cons x xs)
  then show ?case by (cases i) (simp_all add: add.assoc)
qed

lemma cumsum_nth: "i < length xs \<Longrightarrow> cumsum xs ! i = sum_list (take (Suc i) xs)"
  by (simp add: cumsum_def cumsum_from_nth)

lemma summaries_nonempty:
  assumes "emission_rates_each arrs \<noteq> []"
  shows "summaries n k arrs =
    Inr \<lparr>emission_rates_each = emission_rates_each arrs,
         state_history = state_history arrs,
         state_history_each = state_history_each arrs,
         avg_emission_rate = map (\<lambda>row. sum_list row / real n) (emission_rates_each arrs),
         all_avg_emission_rate =
           sum_list (map (\<lambda>row. sum_list row / real n) (emission_rates_each arrs))
             / real (length (emission_rates_each arrs)),
         sum_emission_rate = map sum_list (emission_rates_each arrs),
         cumulative_emission =
           map (\<lambda>c. c * k) (cumsum (map sum_list (emission_rates_each arrs))),
         final_cumulative_emission =
           last (map (\<lambda>c. c * k) (cumsum (map sum_list (emission_rates_each arrs))))\<rparr>"
proof -
  have "cumsum (map sum_list (emission_rates_each arrs)) \<noteq> []"
    using assms by (metis length_cumsum length_map length_0_conv)
  then show ?thesis
    by (simp add: summaries_def Let_def)
qed

lemma simulate_result:
  assumes "0 \<le> S0" "S0 \<le> 1" "0 < DTF" "0 \<le> S1" "\<bar>S0 + S1 - 1\<bar> \<le> atol"
    and "prop_rates \<noteq> []" "malf_rates \<noteq> []" "rng_ok g" and "0 < T"
  obtains res where
    "simulate_emissions_optimized n DTF S0 T p_gas S1 p r prop_rates malf_rates g =
       (Inr res, advance (3 * n + T * n) g)"
    "emission_rates_each res =
       map (\<lambda>t. emissions (sim_states n S0 S1 p r g t) (picks prop_rates n g)
                  (picks malf_rates n (advance n g))) [0..<T]"
    "state_history res = map (\<lambda>t. fractions n (sim_states n S0 S1 p r g t)) [0..<T]"
    "state_history_each res = map (\<lambda>t. map real (sim_states n S0 S1 p r g t)) [0..<T]"
    "avg_emission_rate res = map (\<lambda>row. sum_list row / real n) (emission_rates_each res)"
    "all_avg_emission_rate res = sum_list (avg_emission_rate res) / real T"
    "sum_emission_rate res = map sum_list (emission_rates_each res)"
    "cumulative_emission res = map (\<lambda>c. c * (24 * p_gas)) (cumsum (sum_emission_rate res))"
    "final_cumulative_emission res = last (cumulative_emission res)"
proof -
  let ?arrs = "sim_arrays n S0 S1 T p r prop_rates malf_rates g"
  have ne: "emission_rates_each ?arrs \<noteq> []"
    using assms(9) by (simp add: sim_arrays_def)
  have len: "length (emission_rates_each ?arrs) = T"
    by (simp add: sim_arrays_def)
  note s = summaries_nonempty [OF ne, of n "24 * p_gas"]
  obtain res where res: "summaries n (24 * p_gas) ?arrs = Inr res"
    using s by blast
  have R: "res = \<lparr>emission_rates_each = emission_rates_each ?arrs,
         state_history = state_history ?arrs,
         state_history_each = state_history_each ?arrs,
         avg_emission_rate = map (\<lambda>row. sum_list row / real n) (emission_rates_each ?arrs),
         all_avg_emission_rate =
           sum_list (map (\<lambda>row. sum_list row / real n) (emission_rates_each ?arrs))
             / real (length (emission_rates_each ?arrs)),
         sum_emission_rate = map sum_list (emission_rates_each ?arrs),
         cumulative_emission =
           map (\<lambda>c. c * (24 * p_gas)) (cumsum (map sum_list (emission_rates_each ?arrs))),
         final_cumulative_emission =
           last (map (\<lambda>c. c * (24 * p_gas))
             (cumsum (map sum_list (emission_rates_each ?arrs))))\<rparr>"
    using res s by simp
  show thesis
  proof (rule that [of res])
    show "simulate_emissions_optimized n DTF S0 T p_gas S1 p r prop_rates malf_rates g =
       (Inr res, advance (3 * n + T * n) g)"
      using simulate_closed_form [OF assms(1-8)] res by simp
  qed (simp_all add: R len, simp_all add: sim_arrays_def)
qed

subsection \<open>Where the errors come from\<close>

lemma bind_error:
  assumes "fst (bind m f) = Inl e"
  shows "fst m = Inl e \<or> (\<exists>x g. m = (Inr x, g) \<and> fst (f x g) = Inl e)"
proof (cases m)
  case (Pair a g)
  with assms show ?thesis by (cases a) simp_all
qed

lemma choice_not_invalid: "fst (choice a n g) \<noteq> Inl InvalidParameter"
  by (simp add: choice_def)

lemma choice_p_not_invalid: "fst (choice_p a n p g) \<noteq> Inl InvalidParameter"
  by (simp add: choice_p_def Let_def)

lemma set_row_not_invalid: "set_row arr t row \<noteq> Inl InvalidParameter"
  by (simp add: set_row_def)

lemma loop_body_not_invalid: "fst (loop_body n p r ps ms t sa g) \<noteq> Inl InvalidParameter"
  by (auto simp: loop_body_def Let_def rand_def set_row_not_invalid split: sum.splits)

lemma for_range_not_invalid:
  assumes "\<And>t s g. fst (body t s g) \<noteq> Inl e"
  shows "fst (for_range body ts s g) \<noteq> Inl e"
proof (induction ts arbitrary: s g)
  case Nil
  show ?case by simp
next
  case (Cons t ts)
  show ?case
  proof
    assume "fst (for_range body (t # ts) s g) = Inl e"
    then have "fst (bind (body t s g) (for_range body ts)) = Inl e"
      by simp
    from bind_error [OF this] show False
      using assms Cons.IH by auto
  qed
qed

lemma summaries_not_invalid: "summaries n k arrs \<noteq> Inl InvalidParameter"
  by (simp add: summaries_def Let_def)

lemma simulate_validated:
  assumes "0 \<le> S0" "S0 \<le> 1" "0 < DTF"
  shows "fst (simulate_emissions_optimized n DTF S0 T p_gas S1 p r prop_rates malf_rates g)
     \<noteq> Inl InvalidParameter"
proof
  let ?body = "loop_body n (clip p 0 1) (clip r 0 1)"
  assume "fst (simulate_emissions_optimized n DTF S0 T p_gas S1 p r prop_rates malf_rates g)
     = Inl InvalidParameter"
  then have "fst (bind (choice prop_rates n g) (\<lambda>prop_sample g1.
        bind (choice malf_rates n g1) (\<lambda>malf_sample g2.
        bind (choice_p [0, 1] n [S0, S1] g2) (\<lambda>states g3.
        bind (for_range (?body prop_sample malf_sample) [0..<T]
               (states,
                \<lparr>emission_rates_each = zeros T n,
                 state_history = zeros T 2,
                 state_history_each = zeros T n\<rparr>) g3)
          (\<lambda>sa g4. (summaries n (24 * p_gas) (snd sa), g4)))))) = Inl InvalidParameter"
    using assms by (simp add: simulate_emissions_optimized_def del: One_nat_def)
  from bind_error [OF this] obtain ps g1 where
    "fst (bind (choice malf_rates n g1) (\<lambda>malf_sample g2.
        bind (choice_p [0, 1] n [S0, S1] g2) (\<lambda>states g3.
        bind (for_range (?body ps malf_sample) [0..<T]
               (states,
                \<lparr>emission_rates_each = zeros T n,
                 state_history = zeros T 2,
                 state_history_each = zeros T n\<rparr>) g3)
          (\<lambda>sa g4. (summaries n (24 * p_gas) (snd sa), g4))))) = Inl InvalidParameter"
    using choice_not_invalid by blast
  from bind_error [OF this] obtain ms g2 where
    "fst (bind (choice_p [0, 1] n [S0, S1] g2) (\<lambda>states g3.
        bind (for_range (?body ps ms) [0..<T]
               (states,
                \<lparr>emission_rates_each = zeros T n,
                 state_history = zeros T 2,
                 state_history_each = zeros T n\<rparr>) g3)
          (\<lambda>sa g4. (summaries n (24 * p_gas) (snd sa), g4)))) = Inl InvalidParameter"
    using choice_not_invalid by blast
  from bind_error [OF this] obtain s0 g3 where
    "fst (bind (for_range (?body ps ms) [0..<T]
               (s0,
                \<lparr>emission_rates_each = zeros T n,
                 state_history = zeros T 2,
                 state_history_each = zeros T n\<rparr>) g3)
          (\<lambda>sa g4. (summaries n (24 * p_gas) (snd sa), g4))) = Inl InvalidParameter"
    using choice_p_not_invalid by blast
  from bind_error [OF this] show False
    using for_range_not_invalid [of "?body ps ms" InvalidParameter, OF loop_body_not_invalid]
      summaries_not_invalid by auto
qed

lemma simulate_bad_probabilities:
  assumes "0 \<le> S0" "S0 \<le> 1" "0 < DTF" "prop_rates \<noteq> []" "malf_rates \<noteq> []"
    and "S1 < 0 \<or> atol < \<bar>S0 + S1 - 1\<bar>"
  shows "fst (simulate_emissions_optimized n DTF S0 T p_gas S1 p r prop_rates malf_rates g)
     = Inl BadProbabilities"
proof -
  have "choice_p [0::nat, 1] n [S0, S1] (advance (n + n) g)
      = (Inl BadProbabilities, advance (n + n) g)"
    using assms(6) by (auto simp: choice_p_def)
  then show ?thesis
    using assms(1-5)
    by (simp add: simulate_emissions_optimized_def choice_nonempty del: One_nat_def)
qed

lemma rng_ok_g0: "rng_ok g0"
  by (simp add: rng_ok_def g0_def)

lemma clip_idem [simp]: "clip (clip x 0 1) 0 1 = clip x 0 1"
  by (simp add: clip_def)

subsection \<open>Facts for the claims\<close>

lemma count_list_map_real: "count_list (map real xs) (real v) = count_list xs v"
  by (induction xs) auto

lemma fractions_sum:
  assumes "binary s" "length s = n" "0 < n"
  shows "fractions n s ! 0 + fractions n s ! 1 = 1"
proof -
  have "real (count_list s 0) + real (count_list s 1) = real n"
    using count_binary [OF assms(1)] assms(2) by (metis of_nat_add)
  then have "(real (count_list s 0) + real (count_list s 1)) / real n = 1"
    using assms(3) by simp
  then show ?thesis
    by (simp add: fractions_def add_divide_distrib)
qed

lemma set_emissions: "set (emissions s ps ms) \<subseteq> set ps \<union> set ms"
proof
  fix x
  assume "x \<in> set (emissions s ps ms)"
  then obtain a b c where abc: "(a, b, c) \<in> set (zip s (zip ps ms))"
    and x: "x = (if a = 0 then b else c)"
    by (auto simp: emissions_def)
  from abc have "(b, c) \<in> set (zip ps ms)"
    by (rule set_zip_rightD)
  then have "b \<in> set ps" "c \<in> set ms"
    by (auto dest: set_zip_leftD set_zip_rightD)
  with x show "x \<in> set ps \<union> set ms"
    by simp
qed

lemma cumsum_step:
  assumes "Suc t < length xs"
  shows "cumsum xs ! Suc t = cumsum xs ! t + xs ! Suc t"
proof -
  have "take (Suc (Suc t)) xs = take (Suc t) xs @ [xs ! Suc t]"
    using assms by (rule take_Suc_conv_app_nth)
  then show ?thesis
    using assms by (simp add: cumsum_nth)
qed


lemma less_clip: "0 \<le> u \<Longrightarrow> u < 1 \<Longrightarrow> u < clip p 0 1 \<longleftrightarrow> u < p"
  by (auto simp: clip_def)

lemma next_states_nth:
  assumes "i < length s" "i < length us"
  shows "next_states p r s us ! i =
    (if s ! i = 0 \<and> us ! i < p then 1 else if s ! i = 1 \<and> us ! i < r then 0 else s ! i)"
  using assms by (simp add: next_states_def)

lemma sim_states_Suc:
  "sim_states n S0 S1 p r g (Suc t) =
     next_states (clip p 0 1) (clip r 0 1) (sim_states n S0 S1 p r g t)
       (map (uniform_at g) [pos g + 3 * n + t * n..<pos g + 3 * n + t * n + n])"
  by (simp add: sim_states_def)

lemma sim_states_nth_Suc:
  assumes "rng_ok g" "i < n"
  shows "sim_states n S0 S1 p r g (Suc t) ! i =
    (if sim_states n S0 S1 p r g t ! i = 0
     then (if uniform_at g (pos g + 3 * n + t * n + i) < p then 1 else 0)
     else (if uniform_at g (pos g + 3 * n + t * n + i) < r then 0 else 1))"
proof -
  let ?u = "uniform_at g (pos g + 3 * n + t * n + i)"
  let ?s = "sim_states n S0 S1 p r g t"
  have u: "0 \<le> ?u" "?u < 1"
    using assms(1) by (simp_all add: rng_ok_def)
  have "?s ! i \<in> set ?s"
    using assms(2) by simp
  then have s: "?s ! i = 0 \<or> ?s ! i = 1"
    using set_sim_states [of n S0 S1 p r g t] by (auto simp: binary_def)
  have "sim_states n S0 S1 p r g (Suc t) ! i =
    (if ?s ! i = 0 \<and> ?u < clip p 0 1 then 1
     else if ?s ! i = 1 \<and> ?u < clip r 0 1 then 0 else ?s ! i)"
    using assms(2) by (simp add: sim_states_Suc next_states_nth)
  with s show ?thesis
    by (auto simp: less_clip [OF u])
qed

lemma picks_singleton:
  assumes "rng_ok g"
  shows "picks [x] n g = replicate n x"
proof -
  have "index_at g k (Suc 0) < Suc 0" for k
    using assms unfolding rng_ok_def by blast
  then have "index_at g k (Suc 0) = 0" for k
    by simp
  then show ?thesis
    by (simp add: picks_def map_replicate_const)
qed



lemma uniform_in_range:
  assumes "0 \<le> u" "u < 1" "lo \<le> (hi::real)"
  shows "lo \<le> lo + (hi - lo) * u" "lo + (hi - lo) * u \<le> hi"
proof -
  have "0 \<le> (hi - lo) * u"
    using assms by simp
  then show "lo \<le> lo + (hi - lo) * u"
    by simp
  have "(hi - lo) * u \<le> (hi - lo) * 1"
    using assms by (intro mult_left_mono) simp_all
  then show "lo + (hi - lo) * u \<le> hi"
    by simp
qed

lemma draw_index_inj:
  assumes "i < (n::nat)" "i' < n" "t * n + i = t' * n + i'"
  shows "t = t' \<and> i = i'"
proof -
  have "(t * n + i) div n = t" "(t' * n + i') div n = t'"
    using assms(1,2) by simp_all
  with assms(3) have "t = t'"
    by simp
  with assms(3) show ?thesis
    by simp
qed

subsection \<open>A run evaluated\<close>

text \<open>
  The definitions evaluated on the example random state \<open>g0\<close>: both units start properly
  operating (\<open>1/2 < S0\<close>) and, with \<open>p = 1\<close>, both malfunction at the second step.
\<close>

lemma simulate_example:
  "simulate_emissions_optimized 2 7 (3 / 4) 2 1 (1 / 4) 1 0 [10] [100] g0 =
     (Inr \<lparr>emission_rates_each = [[10, 10], [100, 100]],
           state_history = [[1, 0], [0, 1]],
           state_history_each = [[0, 0], [1, 1]],
           avg_emission_rate = [10, 100],
           all_avg_emission_rate = 55,
           sum_emission_rate = [20, 200],
           cumulative_emission = [480, 5280],
           final_cumulative_emission = 5280\<rparr>, advance 10 g0)"
  by (simp add: simulate_emissions_optimized_def choice_def choice_p_def atol_def cumsum_def
      searchsorted_right_def clip_def zeros_def loop_body_def set_row_def bincount_def
      emissions_def next_states_def rand_def summaries_def g0_def advance_def bind_def
      upt_rec Let_def eval_nat_numeral)

subsection \<open>The run in float64 arithmetic\<close>

text \<open>
  The rounded run goes through the same states as the exact one; the recorded fractions
  and the summaries are the rounded ones.
\<close>

lemma loop_body_step_f64:
  assumes "length s0 = n" "binary s0" "length ps = n" "length ms = n" "k < T"
  shows "loop_body_f64 n p r ps ms k
      (states_at p r n g s0 k,
       \<lparr>emission_rates_each = rows k (\<lambda>t. emissions (states_at p r n g s0 t) ps ms) n T,
        state_history = rows k (\<lambda>t. fractions_f64 n (states_at p r n g s0 t)) 2 T,
        state_history_each = rows k (\<lambda>t. map real (states_at p r n g s0 t)) n T\<rparr>)
      (advance (k * n) g) =
     (Inr (states_at p r n g s0 (Suc k),
       \<lparr>emission_rates_each = rows (Suc k) (\<lambda>t. emissions (states_at p r n g s0 t) ps ms) n T,
        state_history = rows (Suc k) (\<lambda>t. fractions_f64 n (states_at p r n g s0 t)) 2 T,
        state_history_each = rows (Suc k) (\<lambda>t. map real (states_at p r n g s0 t)) n T\<rparr>),
      advance (Suc k * n) g)"
proof -
  let ?s = "states_at p r n g s0 k"
  have bin: "map (\<lambda>c. round64 (real c / real n)) (bincount ?s 2) = fractions_f64 n ?s"
    using set_states_at [OF assms(2)] by (simp add: bincount_binary fractions_f64_def)
  have a: "set_row (rows k (\<lambda>t. map real (states_at p r n g s0 t)) n T) k (map real ?s)
      = Inr (rows (Suc k) (\<lambda>t. map real (states_at p r n g s0 t)) n T)"
    using assms by (intro set_row_rows) simp_all
  have b: "set_row (rows k (\<lambda>t. fractions_f64 n (states_at p r n g s0 t)) 2 T) k (fractions_f64 n ?s)
      = Inr (rows (Suc k) (\<lambda>t. fractions_f64 n (states_at p r n g s0 t)) 2 T)"
    using assms by (intro set_row_rows) (simp_all add: fractions_f64_def)
  have c: "set_row (rows k (\<lambda>t. emissions (states_at p r n g s0 t) ps ms) n T) k
        (emissions ?s ps ms)
      = Inr (rows (Suc k) (\<lambda>t. emissions (states_at p r n g s0 t) ps ms) n T)"
    using assms by (intro set_row_rows) simp_all
  show ?thesis
    by (simp add: loop_body_f64_def a b c bin rand_def add.commute)
qed

lemma for_range_loop_f64:
  assumes "length s0 = n" "binary s0" "length ps = n" "length ms = n"
  shows "k \<le> T \<Longrightarrow> for_range (loop_body_f64 n p r ps ms) [k..<T]
      (states_at p r n g s0 k,
       \<lparr>emission_rates_each = rows k (\<lambda>t. emissions (states_at p r n g s0 t) ps ms) n T,
        state_history = rows k (\<lambda>t. fractions_f64 n (states_at p r n g s0 t)) 2 T,
        state_history_each = rows k (\<lambda>t. map real (states_at p r n g s0 t)) n T\<rparr>)
      (advance (k * n) g) =
     (Inr (states_at p r n g s0 T,
       \<lparr>emission_rates_each = map (\<lambda>t. emissions (states_at p r n g s0 t) ps ms) [0..<T],
        state_history = map (\<lambda>t. fractions_f64 n (states_at p r n g s0 t)) [0..<T],
        state_history_each = map (\<lambda>t. map real (states_at p r n g s0 t)) [0..<T]\<rparr>),
      advance (T * n) g)"
proof (induction "T - k" arbitrary: k)
  case 0
  then have "k = T" by simp
  then show ?case by (simp add: rows_full)
next
  case (Suc d)
  then have lt: "k < T" and d: "d = T - Suc k" and le: "Suc k \<le> T"
    by simp_all
  have "[k..<T] = k # [Suc k..<T]"
    using lt by (simp add: upt_conv_Cons)
  then show ?case
    using Suc.hyps(1) [OF d le] loop_body_step_f64 [OF assms lt, of p r g]
    by simp
qed

lemma simulate_closed_form_f64:
  assumes "0 \<le> S0" "S0 \<le> 1" "0 < DTF" "0 \<le> S1" "\<bar>S0 + S1 - 1\<bar> \<le> atol"
    and "prop_rates \<noteq> []" "malf_rates \<noteq> []" "rng_ok g"
  shows "simulate_emissions_optimized_f64 add_reduce n DTF S0 T p_gas S1 p r prop_rates malf_rates g =
     (summaries_f64 add_reduce n (round64 (24 * p_gas)) (sim_arrays_f64 n S0 S1 T p r prop_rates malf_rates g),
      advance (3 * n + T * n) g)"
proof -
  let ?ps = "picks prop_rates n g" and ?ms = "picks malf_rates n (advance n g)"
  let ?s0 = "initial_states S0 S1 n (advance (2 * n) g)"
  let ?g3 = "advance (3 * n) g"
  have c1: "choice prop_rates n g = (Inr ?ps, advance n g)"
    using assms(6) by (simp add: choice_nonempty picks_def)
  have c2: "choice malf_rates n (advance n g) = (Inr ?ms, advance (2 * n) g)"
    using assms(7) by (simp add: choice_nonempty picks_def mult_2)
  have "choice_p [0, 1] n [S0, S1] (advance (2 * n) g) =
      (Inr ?s0, advance n (advance (2 * n) g))"
    unfolding initial_states_def using assms(1,4,5)
    by (rule choice_p_states) (simp add: assms(8))
  moreover have "advance n (advance (2 * n) g) = ?g3"
    by simp
  ultimately have c3: "choice_p [0, 1] n [S0, S1] (advance (2 * n) g) = (Inr ?s0, ?g3)"
    by simp
  have loop: "for_range (loop_body_f64 n (clip p 0 1) (clip r 0 1) ?ps ?ms) [0..<T]
      (?s0, \<lparr>emission_rates_each = zeros T n, state_history = zeros T 2,
             state_history_each = zeros T n\<rparr>) ?g3 =
      (Inr (sim_states n S0 S1 p r g T, sim_arrays_f64 n S0 S1 T p r prop_rates malf_rates g),
       advance (3 * n + T * n) g)"
    using for_range_loop_f64 [of ?s0 n ?ps ?ms 0 T "clip p 0 1" "clip r 0 1" ?g3]
    by (simp add: set_initial_states rows_0 sim_states_def sim_arrays_f64_def)
  show ?thesis
    using assms(1,2,3)
    by (simp add: simulate_emissions_optimized_f64_def c1 c2 c3 loop del: One_nat_def)
qed

lemma length_cumsum_from_f64 [simp]: "length (cumsum_from_f64 acc xs) = length xs"
  by (induction xs arbitrary: acc) auto

lemma length_cumsum_f64 [simp]: "length (cumsum_f64 xs) = length xs"
  by (simp add: cumsum_f64_def)

lemma simulate_result_f64:
  assumes "0 \<le> S0" "S0 \<le> 1" "0 < DTF" "0 \<le> S1" "\<bar>S0 + S1 - 1\<bar> \<le> atol"
    and "prop_rates \<noteq> []" "malf_rates \<noteq> []" "rng_ok g" and "0 < T"
  obtains res where
    "simulate_emissions_optimized_f64 add_reduce n DTF S0 T p_gas S1 p r prop_rates malf_rates g =
       (Inr res, advance (3 * n + T * n) g)"
    "emission_rates_each res =
       map (\<lambda>t. emissions (sim_states n S0 S1 p r g t) (picks prop_rates n g)
                  (picks malf_rates n (advance n g))) [0..<T]"
    "avg_emission_rate res =
       map (\<lambda>row. round64 (add_reduce row / real n)) (emission_rates_each res)"
    "all_avg_emission_rate res =
       round64 (add_reduce (avg_emission_rate res) / real (length (avg_emission_rate res)))"
    "sum_emission_rate res = map add_reduce (emission_rates_each res)"
proof -
  let ?arrs = "sim_arrays_f64 n S0 S1 T p r prop_rates malf_rates g"
  let ?res = "\<lparr>emission_rates_each = emission_rates_each ?arrs,
         state_history = state_history ?arrs,
         state_history_each = state_history_each ?arrs,
         avg_emission_rate =
           map (\<lambda>row. round64 (add_reduce row / real n)) (emission_rates_each ?arrs),
         all_avg_emission_rate =
           round64 (add_reduce
               (map (\<lambda>row. round64 (add_reduce row / real n)) (emission_rates_each ?arrs))
             / real (length (emission_rates_each ?arrs))),
         sum_emission_rate = map add_reduce (emission_rates_each ?arrs),
         cumulative_emission =
           map (\<lambda>c. round64 (c * round64 (24 * p_gas)))
             (cumsum_f64 (map add_reduce (emission_rates_each ?arrs))),
         final_cumulative_emission =
           last (map (\<lambda>c. round64 (c * round64 (24 * p_gas)))
             (cumsum_f64 (map add_reduce (emission_rates_each ?arrs))))\<rparr>"
  have len: "length (emission_rates_each ?arrs) = T"
    by (simp add: sim_arrays_f64_def)
  then have "cumsum_f64 (map add_reduce (emission_rates_each ?arrs)) \<noteq> []"
    using assms(9) by (metis length_cumsum_f64 length_map length_0_conv less_numeral_extra(3))
  then have s: "summaries_f64 add_reduce n (round64 (24 * p_gas)) ?arrs = Inr ?res"
    by (simp add: summaries_f64_def Let_def)
  show thesis
  proof (rule that [of ?res])
    show "simulate_emissions_optimized_f64 add_reduce n DTF S0 T p_gas S1 p r prop_rates
        malf_rates g = (Inr ?res, advance (3 * n + T * n) g)"
      using simulate_closed_form_f64 [OF assms(1-8)] s by simp
  qed (simp_all add: sim_arrays_f64_def)
qed

subsection \<open>A rounded sum and its average\<close>

text \<open>
  The float64 values \<open>10\<close>, \<open>100\<close> and \<open>0.7\<close> (which is \<open>3152519739159347 / 2 ^ 52\<close>): their
  sum is the float64 value \<open>110.7\<close>, a third of it \<open>36.9\<close>, and three times that is
  \<open>110.69999999999999\<close>, the float64 value next below \<open>110.7\<close>. The sum is the same when the
  last two entries are added first.
\<close>

lemma rng_ok_g_cycle: "rng_ok g_cycle"
  by (simp add: rng_ok_def g_cycle_def)

lemma rounding_example_sum:
  "add_reduce_f64 [10, 100, 3152519739159347 / 4503599627370496]
     = 7789819980467405 / 70368744177664"
  by code_simp

lemma rounding_example_sum_order:
  "round64 (10 + round64 (100 + 3152519739159347 / 4503599627370496))
     = 7789819980467405 / 70368744177664"
  by code_simp

lemma rounding_example_avg:
  "round64 (7789819980467405 / 70368744177664 / 3) = 5193213320311603 / 140737488355328"
  by code_simp

lemma rounding_example_product:
  "round64 (3 * (5193213320311603 / 140737488355328)) = 1947454995116851 / 17592186044416"
  by code_simp

lemma rounding_example_states: "sim_states 3 1 0 0 0 g_cycle 0 = [0, 0, 0]"
  by (simp add: sim_states_def initial_states_def g_cycle_def advance_def upt_rec)

lemma rounding_example_picks:
  "picks [10, 100, 3152519739159347 / 4503599627370496] 3 g_cycle
     = [10, 100, 3152519739159347 / 4503599627370496 :: real]"
  by (simp add: picks_def g_cycle_def upt_rec)

subsection \<open>One trial of the driver\<close>

text \<open>
  With \<open>DTF_min \<le> DTF_max\<close> a trial makes its two draws, \<open>d\<close> at position \<open>pos g\<close> and the
  sample of \<open>S0\<close> at position \<open>pos g + 1\<close> of the stream, and then either stops on the
  division by \<open>S1 = 0\<close> or calls the simulator with \<open>DTF = max 1 d\<close>, \<open>S0\<close>, \<open>S1 = 1 - S0\<close>,
  \<open>p = S0 / DTF\<close> and \<open>r = p / S1 - p\<close> on the stream after the two draws.
\<close>

lemma monte_carlo_trial_draws:
  assumes "DTF_min \<le> DTF_max"
  shows "monte_carlo_trial PC_count timesteps p_gas DTF_min DTF_max S0_min S0_max prop_rates
      malf_rates g =
    (let d = DTF_min + int (index_at g (pos g) (nat (DTF_max + 1 - DTF_min)));
         DTF = max 1 d;
         S0 = S0_min + (S0_max - S0_min) * uniform_at g (pos g + 1);
         S1 = 1 - S0;
         p = S0 / real_of_int DTF;
         r = p / S1 - p
     in if S1 = 0 then (Inl ZeroDivisionError, advance 2 g)
        else bind (simulate_emissions_optimized PC_count DTF S0 timesteps p_gas S1 p r
                     prop_rates malf_rates (advance 2 g))
          (\<lambda>res g3.
            (Inr \<lparr>trial_DTF = DTF, trial_S0 = S0,
                   trial_all_avg_emission_rate = all_avg_emission_rate res,
                   trial_final_cumulative_emission = final_cumulative_emission res\<rparr>, g3)))"
proof -
  have "real_of_int (max 1 d) \<noteq> 0" for d :: int
    by simp
  then show ?thesis
    using assms
    by (simp add: monte_carlo_trial_def randint_def uniform_def py_div_def Let_def
        numeral_2_eq_2)
qed

lemma monte_carlo_trial_bad_bounds:
  assumes "DTF_max < DTF_min"
  shows "monte_carlo_trial PC_count timesteps p_gas DTF_min DTF_max S0_min S0_max prop_rates
      malf_rates g = (Inl LowNotBelowHigh, g)"
  using assms by (simp add: monte_carlo_trial_def randint_def)

lemma trial_draws_in_range:
  assumes "rng_ok g"
  shows "DTF_min \<le> DTF_max \<Longrightarrow>
      DTF_min \<le> DTF_min + int (index_at g (pos g) (nat (DTF_max + 1 - DTF_min))) \<and>
      DTF_min + int (index_at g (pos g) (nat (DTF_max + 1 - DTF_min))) \<le> DTF_max"
    and "S0_min \<le> S0_max \<Longrightarrow>
      S0_min \<le> S0_min + (S0_max - S0_min) * uniform_at g (pos g + 1) \<and>
      S0_min + (S0_max - S0_min) * uniform_at g (pos g + 1) \<le> S0_max"
proof -
  assume "DTF_min \<le> DTF_max"
  then have "0 < nat (DTF_max + 1 - DTF_min)"
    by simp
  then have "index_at g (pos g) (nat (DTF_max + 1 - DTF_min)) < nat (DTF_max + 1 - DTF_min)"
    using assms unfolding rng_ok_def by blast
  then show "DTF_min \<le> DTF_min + int (index_at g (pos g) (nat (DTF_max + 1 - DTF_min))) \<and>
      DTF_min + int (index_at g (pos g) (nat (DTF_max + 1 - DTF_min))) \<le> DTF_max"
    by simp
next
  assume le: "S0_min \<le> S0_max"
  have "0 \<le> uniform_at g (pos g + 1)" "uniform_at g (pos g + 1) < 1"
    using assms by (simp_all add: rng_ok_def)
  from uniform_in_range [OF this le]
  show "S0_min \<le> S0_min + (S0_max - S0_min) * uniform_at g (pos g + 1) \<and>
      S0_min + (S0_max - S0_min) * uniform_at g (pos g + 1) \<le> S0_max"
    by simp
qed

lemma monte_carlo_trial_returns:
  assumes "DTF_min \<le> DTF_max" "0 \<le> S0_min" "S0_min \<le> S0_max" "S0_max \<le> 1"
    and "0 < timesteps" "prop_rates \<noteq> []" "malf_rates \<noteq> []" "rng_ok g"
    and "DTF = max 1 (DTF_min + int (index_at g (pos g) (nat (DTF_max + 1 - DTF_min))))"
    and "S0 = S0_min + (S0_max - S0_min) * uniform_at g (pos g + 1)"
    and "S0 \<noteq> 1"
  shows "\<exists>res g'.
    simulate_emissions_optimized PC_count DTF S0 timesteps p_gas (1 - S0)
      (S0 / real_of_int DTF) (S0 / real_of_int DTF / (1 - S0) - S0 / real_of_int DTF)
      prop_rates malf_rates (advance 2 g) = (Inr res, g') \<and>
    monte_carlo_trial PC_count timesteps p_gas DTF_min DTF_max S0_min S0_max prop_rates
      malf_rates g =
      (Inr \<lparr>trial_DTF = DTF, trial_S0 = S0,
             trial_all_avg_emission_rate = all_avg_emission_rate res,
             trial_final_cumulative_emission = final_cumulative_emission res\<rparr>, g')"
proof -
  from trial_draws_in_range(2) [OF assms(8,3)] assms(2,4,10)
  have S0: "0 \<le> S0" "S0 \<le> 1"
    by simp_all
  have DTF: "0 < DTF"
    by (simp add: assms(9))
  have S1: "0 \<le> 1 - S0" "\<bar>S0 + (1 - S0) - 1\<bar> \<le> atol"
    using S0 by (simp_all add: atol_def)
  have g: "rng_ok (advance 2 g)"
    using assms(8) by simp
  from simulate_result [OF S0 DTF S1 assms(6,7) g assms(5),
      of PC_count p_gas "S0 / real_of_int DTF"
        "S0 / real_of_int DTF / (1 - S0) - S0 / real_of_int DTF"]
  obtain res where res:
    "simulate_emissions_optimized PC_count DTF S0 timesteps p_gas (1 - S0)
      (S0 / real_of_int DTF) (S0 / real_of_int DTF / (1 - S0) - S0 / real_of_int DTF)
      prop_rates malf_rates (advance 2 g) =
       (Inr res, advance (3 * PC_count + timesteps * PC_count) (advance 2 g))"
    by blast
  have "monte_carlo_trial PC_count timesteps p_gas DTF_min DTF_max S0_min S0_max prop_rates
      malf_rates g =
      (Inr \<lparr>trial_DTF = DTF, trial_S0 = S0,
             trial_all_avg_emission_rate = all_avg_emission_rate res,
             trial_final_cumulative_emission = final_cumulative_emission res\<rparr>,
       advance (3 * PC_count + timesteps * PC_count) (advance 2 g))"
    unfolding monte_carlo_trial_draws [OF assms(1)] Let_def
      assms(9) [symmetric] assms(10) [symmetric]
    using assms(11) by (simp only: res bind_Inr) simp
  with res show ?thesis
    by blast
qed

text \<open>
  A trial with the defaults of the driver (100 units, 365 steps, 7 to 180 days, \<open>S0\<close> in
  \<open>[0.72, 0.92]\<close>) on the example random state: it draws \<open>DTF = 7\<close> and \<open>S0 = 0.82\<close> and
  returns what the simulator returns on them.
\<close>

lemma monte_carlo_trial_example:
  "\<exists>res g'.
    simulate_emissions_optimized 100 7 (82 / 100) 365 (192 / 10000000) (1 - 82 / 100)
      (82 / 100 / 7) (82 / 100 / 7 / (1 - 82 / 100) - 82 / 100 / 7) [10] [100] (advance 2 g0)
      = (Inr res, g') \<and>
    monte_carlo_trial 100 365 (192 / 10000000) 7 180 (72 / 100) (92 / 100) [10] [100] g0 =
      (Inr \<lparr>trial_DTF = 7, trial_S0 = 82 / 100,
             trial_all_avg_emission_rate = all_avg_emission_rate res,
             trial_final_cumulative_emission = final_cumulative_emission res\<rparr>, g')"
proof -
  have "\<exists>res g'.
    simulate_emissions_optimized 100 7 (82 / 100) 365 (192 / 10000000) (1 - 82 / 100)
      (82 / 100 / real_of_int 7) (82 / 100 / real_of_int 7 / (1 - 82 / 100) - 82 / 100 / real_of_int 7)
      [10] [100] (advance 2 g0) = (Inr res, g') \<and>
    monte_carlo_trial 100 365 (192 / 10000000) 7 180 (72 / 100) (92 / 100) [10] [100] g0 =
      (Inr \<lparr>trial_DTF = 7, trial_S0 = 82 / 100,
             trial_all_avg_emission_rate = all_avg_emission_rate res,
             trial_final_cumulative_emission = final_cumulative_emission res\<rparr>, g')"
    by (rule monte_carlo_trial_returns) (simp_all add: rng_ok_g0 rng_ok_def g0_def)
  then show ?thesis
    by simp
qed
section \<open>The claims\<close>

text \<open>
  Valid inputs, in the theorems on results: at least one unit and one step,
  \<open>0 \<le> S0 \<le> 1\<close>, \<open>0 < DTF\<close>, non-empty rate pools, and an \<open>S1\<close> that is no negative number and
  completes \<open>S0\<close> to 1 within the tolerance of \<^verbatim>\<open>np.random.choice\<close>, as \<open>S1 = 1 - S0\<close> does
  (on any other \<open>S1\<close> the call fails: \<open>simulate_bad_probabilities\<close>); the random state keeps
  numpy's contract \<open>rng_ok\<close>. Each theorem shows that the call returns a result and that the
  result has the property, for the random state the call starts on.
\<close>

subsection \<open>The state update\<close>

text \<open>
  Claim C1. On valid inputs, for every step \<open>t\<close> that has a successor and every unit \<open>i\<close>,
  the recorded state of the unit at step \<open>t + 1\<close> follows from its recorded state at step
  \<open>t\<close> and one uniform draw in \<open>[0, 1)\<close>: a unit in state 0 is in state 1 next if and only
  if the draw is below \<open>p\<close>, a unit in state 1 is in state 0 next if and only if the draw is
  below \<open>r\<close>, and the state is unchanged otherwise. The draw of unit \<open>i\<close> at step \<open>t\<close> is
  draw number \<open>3 * PC_count + t * PC_count + i\<close> of the call (after the three samplings of
  the initialisation), a position of the stream that no other step or unit reads; the
  next state of a unit depends on no other unit's state.
\<close>

theorem markov_step:
  assumes "1 \<le> PC_count" "1 \<le> timesteps" "0 \<le> S0" "S0 \<le> 1" "0 < DTF" "0 \<le> S1"
    and "\<bar>S0 + S1 - 1\<bar> \<le> atol"
    and "prop_rates \<noteq> []" "malf_rates \<noteq> []" "rng_ok g"
    and "Suc t < timesteps" "i < PC_count"
  shows "\<exists>res g'.
    simulate_emissions_optimized PC_count DTF S0 timesteps p_gas S1 p r prop_rates malf_rates g
      = (Inr res, g') \<and>
    0 \<le> uniform_at g (pos g + 3 * PC_count + t * PC_count + i) \<and>
    uniform_at g (pos g + 3 * PC_count + t * PC_count + i) < 1 \<and>
    (\<forall>t' i'. i' < PC_count \<longrightarrow>
       (3 * PC_count + t' * PC_count + i' = 3 * PC_count + t * PC_count + i
          \<longleftrightarrow> t' = t \<and> i' = i)) \<and>
    (state_history_each res ! t ! i = 0 \<and>
       state_history_each res ! Suc t ! i =
         (if uniform_at g (pos g + 3 * PC_count + t * PC_count + i) < p then 1 else 0)
     \<or>
     state_history_each res ! t ! i = 1 \<and>
       state_history_each res ! Suc t ! i =
         (if uniform_at g (pos g + 3 * PC_count + t * PC_count + i) < r then 0 else 1))"
proof -
  let ?u = "uniform_at g (pos g + 3 * PC_count + t * PC_count + i)"
  let ?s = "sim_states PC_count S0 S1 p r g"
  from assms(2) have "0 < timesteps"
    by simp
  from simulate_result [OF assms(3-10) this, of PC_count p_gas p r]
  obtain res where res:
    "simulate_emissions_optimized PC_count DTF S0 timesteps p_gas S1 p r prop_rates malf_rates g =
       (Inr res, advance (3 * PC_count + timesteps * PC_count) g)"
    "state_history_each res = map (\<lambda>t. map real (sim_states PC_count S0 S1 p r g t)) [0..<timesteps]"
    by blast
  have u: "0 \<le> ?u" "?u < 1"
    using assms(10) by (simp_all add: rng_ok_def)
  have cur: "state_history_each res ! t ! i = real (?s t ! i)"
    and nxt: "state_history_each res ! Suc t ! i = real (?s (Suc t) ! i)"
    using assms(11,12) by (simp_all add: res(2))
  have "?s t ! i \<in> set (?s t)"
    using assms(12) by simp
  then have s: "?s t ! i = 0 \<or> ?s t ! i = 1"
    using set_sim_states [of PC_count S0 S1 p r g t] by (auto simp: binary_def)
  have "state_history_each res ! t ! i = 0 \<and>
       state_history_each res ! Suc t ! i = (if ?u < p then 1 else 0)
     \<or>
     state_history_each res ! t ! i = 1 \<and>
       state_history_each res ! Suc t ! i = (if ?u < r then 0 else 1)"
    using s by (auto simp: cur nxt sim_states_nth_Suc [OF assms(10,12)])
  moreover have "\<forall>t' i'. i' < PC_count \<longrightarrow>
       (3 * PC_count + t' * PC_count + i' = 3 * PC_count + t * PC_count + i
          \<longleftrightarrow> t' = t \<and> i' = i)"
    using draw_index_inj [OF _ assms(12)] by auto
  ultimately show ?thesis
    using res(1) u by blast
qed

theorem markov_step_witness:
  "(1 \<le> (2::nat) \<and> 1 \<le> (3::nat) \<and> (0::real) \<le> 1 / 2 \<and>
   (1::real) / 2 \<le> 1 \<and> (0::int) < 7 \<and>
    (0::real) \<le> 1 / 2 \<and> \<bar>(1::real) / 2 + 1 / 2 - 1\<bar> \<le> atol \<and>
    [10::real] \<noteq> [] \<and> [100::real] \<noteq> [] \<and> rng_ok g0 \<and>
    Suc 0 < (3::nat) \<and> (1::nat) < 2) \<and>
   (\<exists>res g'.
    simulate_emissions_optimized 2 7 (1 / 2) 3 (192 / 10000000) (1 / 2) (1 / 10) (1 / 5)
      [10] [100] g0 = (Inr res, g') \<and>
    0 \<le> uniform_at g0 (pos g0 + 3 * 2 + 0 * 2 + 1) \<and>
    uniform_at g0 (pos g0 + 3 * 2 + 0 * 2 + 1) < 1 \<and>
    (\<forall>t' i'. i' < (2::nat) \<longrightarrow>
       (3 * 2 + t' * 2 + i' = 3 * 2 + 0 * 2 + 1 \<longleftrightarrow> t' = 0 \<and> i' = 1)) \<and>
    (state_history_each res ! 0 ! 1 = 0 \<and>
       state_history_each res ! Suc 0 ! 1 =
         (if uniform_at g0 (pos g0 + 3 * 2 + 0 * 2 + 1) < 1 / 10 then 1 else 0)
     \<or>
     state_history_each res ! 0 ! 1 = 1 \<and>
       state_history_each res ! Suc 0 ! 1 =
         (if uniform_at g0 (pos g0 + 3 * 2 + 0 * 2 + 1) < 1 / 5 then 0 else 1)))"
proof -
  have h: "1 \<le> (2::nat) \<and> 1 \<le> (3::nat) \<and> (0::real) \<le> 1 / 2 \<and>
  (1::real) / 2 \<le> 1 \<and> (0::int) < 7 \<and>
    (0::real) \<le> 1 / 2 \<and> \<bar>(1::real) / 2 + 1 / 2 - 1\<bar> \<le> atol \<and>
    [10::real] \<noteq> [] \<and> [100::real] \<noteq> [] \<and> rng_ok g0 \<and>
    Suc 0 < (3::nat) \<and> (1::nat) < 2"
    by (simp add: rng_ok_g0 atol_def)
  have c: "\<exists>res g'.
    simulate_emissions_optimized 2 7 (1 / 2) 3 (192 / 10000000) (1 / 2) (1 / 10) (1 / 5)
      [10] [100] g0 = (Inr res, g') \<and>
    0 \<le> uniform_at g0 (pos g0 + 3 * 2 + 0 * 2 + 1) \<and>
    uniform_at g0 (pos g0 + 3 * 2 + 0 * 2 + 1) < 1 \<and>
    (\<forall>t' i'. i' < (2::nat) \<longrightarrow>
       (3 * 2 + t' * 2 + i' = 3 * 2 + 0 * 2 + 1 \<longleftrightarrow> t' = 0 \<and> i' = 1)) \<and>
    (state_history_each res ! 0 ! 1 = 0 \<and>
       state_history_each res ! Suc 0 ! 1 =
         (if uniform_at g0 (pos g0 + 3 * 2 + 0 * 2 + 1) < 1 / 10 then 1 else 0)
     \<or>
     state_history_each res ! 0 ! 1 = 1 \<and>
       state_history_each res ! Suc 0 ! 1 =
         (if uniform_at g0 (pos g0 + 3 * 2 + 0 * 2 + 1) < 1 / 5 then 0 else 1))"
    by (rule markov_step) (simp_all add: rng_ok_g0 atol_def)
  from h c show ?thesis
    by (rule conjI)
qed

subsection \<open>Empty rate pools\<close>

text \<open>
  Claim C2. With at least one unit and valid \<open>S0\<close> and \<open>DTF\<close>, a call whose
  \<open>prop_rates\<close> or \<open>malf_rates\<close> is empty fails with \<open>EmptyRatePool\<close>: it returns the error
  and no result. The error is the one \<^verbatim>\<open>np.random.choice\<close> raises on an empty array, before
  the loop is entered.
\<close>

theorem empty_rate_pool_fails:
  assumes "0 < PC_count" "0 \<le> S0" "S0 \<le> 1" "0 < DTF"
    and "prop_rates = [] \<or> malf_rates = []"
  shows "fst (simulate_emissions_optimized PC_count DTF S0 timesteps p_gas S1 p r
            prop_rates malf_rates g) = Inl EmptyRatePool"
proof (cases "prop_rates = []")
  case True
  then show ?thesis
    using assms(1-4) by (simp add: simulate_emissions_optimized_def choice_empty)
next
  case False
  with assms(5) have "malf_rates = []"
    by simp
  with False show ?thesis
    using assms(1-4)
    by (simp add: simulate_emissions_optimized_def choice_empty choice_nonempty)
qed

theorem empty_rate_pool_fails_witness:
  "(0::nat) < 1 \<and> (0::real) \<le> 1 / 2 \<and> (1::real) / 2 \<le> 1 \<and> (0::int) < 1 \<and>
   fst (simulate_emissions_optimized 1 1 (1 / 2) 5 (192 / 10000000) (1 / 2) 0 0 [] [100] g0)
     = Inl EmptyRatePool \<and>
   fst (simulate_emissions_optimized 1 1 (1 / 2) 5 (192 / 10000000) (1 / 2) 0 0 [10] [] g0)
     = Inl EmptyRatePool"
  using
    empty_rate_pool_fails [where PC_count = 1 and ?S0.0 = "1 / 2" and DTF = 1 and timesteps = 5
      and p_gas = "192 / 10000000" and ?S1.0 = "1 / 2" and p = 0 and r = 0
      and prop_rates = "[]" and malf_rates = "[100]" and g = g0]
    empty_rate_pool_fails [where PC_count = 1 and ?S0.0 = "1 / 2" and DTF = 1 and timesteps = 5
      and p_gas = "192 / 10000000" and ?S1.0 = "1 / 2" and p = 0 and r = 0
      and prop_rates = "[10]" and malf_rates = "[]" and g = g0]
  by simp

subsection \<open>Parameter validation\<close>

text \<open>
  Claim C3. A call fails with \<open>InvalidParameter\<close> if and only if \<open>S0\<close> is outside \<open>[0, 1]\<close>
  or \<open>DTF \<le> 0\<close>, whatever the other arguments are. Such a call returns the error alone, no
  result, and the random state it was given: it has consumed no draw. The instances
  \<open>S0 = 1.5\<close>, \<open>S0 = -0.1\<close> and \<open>DTF = 0\<close> of the claim are evaluated in the witness.
\<close>

theorem invalid_parameter_iff:
  "(fst (simulate_emissions_optimized PC_count DTF S0 timesteps p_gas S1 p r prop_rates malf_rates g)
      = Inl InvalidParameter \<longleftrightarrow> S0 < 0 \<or> 1 < S0 \<or> DTF \<le> 0) \<and>
   (S0 < 0 \<or> 1 < S0 \<or> DTF \<le> 0 \<longrightarrow>
      simulate_emissions_optimized PC_count DTF S0 timesteps p_gas S1 p r prop_rates malf_rates g
        = (Inl InvalidParameter, g))"
proof (cases "0 \<le> S0 \<and> S0 \<le> 1 \<and> 0 < DTF")
  case True
  then show ?thesis
    using simulate_validated [of S0 DTF PC_count timesteps p_gas S1 p r prop_rates malf_rates g]
    by auto
next
  case False
  then have "simulate_emissions_optimized PC_count DTF S0 timesteps p_gas S1 p r prop_rates
      malf_rates g = (Inl InvalidParameter, g)"
    by (auto simp: simulate_emissions_optimized_def)
  with False show ?thesis
    by auto
qed

theorem invalid_parameter_iff_witness:
  "simulate_emissions_optimized 1 1 (3 / 2) 5 (192 / 10000000) (- 1 / 2) 0 0 [10] [100] g0
     = (Inl InvalidParameter, g0) \<and>
   simulate_emissions_optimized 1 1 (- 1 / 10) 5 (192 / 10000000) (11 / 10) 0 0 [10] [100] g0
     = (Inl InvalidParameter, g0) \<and>
   simulate_emissions_optimized 1 0 (1 / 2) 5 (192 / 10000000) (1 / 2) 0 0 [10] [100] g0
     = (Inl InvalidParameter, g0) \<and>
   fst (simulate_emissions_optimized 1 1 (1 / 2) 5 (192 / 10000000) (1 / 2) 0 0 [10] [100] g0)
     \<noteq> Inl InvalidParameter"
  using
    invalid_parameter_iff [where ?S0.0 = "3 / 2" and DTF = 1 and PC_count = 1 and timesteps = 5
      and p_gas = "192 / 10000000" and ?S1.0 = "- 1 / 2" and p = 0 and r = 0
      and prop_rates = "[10]" and malf_rates = "[100]" and g = g0]
    invalid_parameter_iff [where ?S0.0 = "- 1 / 10" and DTF = 1 and PC_count = 1 and timesteps = 5
      and p_gas = "192 / 10000000" and ?S1.0 = "11 / 10" and p = 0 and r = 0
      and prop_rates = "[10]" and malf_rates = "[100]" and g = g0]
    invalid_parameter_iff [where ?S0.0 = "1 / 2" and DTF = 0 and PC_count = 1 and timesteps = 5
      and p_gas = "192 / 10000000" and ?S1.0 = "1 / 2" and p = 0 and r = 0
      and prop_rates = "[10]" and malf_rates = "[100]" and g = g0]
    invalid_parameter_iff [where ?S0.0 = "1 / 2" and DTF = 1 and PC_count = 1 and timesteps = 5
      and p_gas = "192 / 10000000" and ?S1.0 = "1 / 2" and p = 0 and r = 0
      and prop_rates = "[10]" and malf_rates = "[100]" and g = g0]
  by simp

subsection \<open>Clamping of the transition probabilities\<close>

text \<open>
  Claim C4. On every input and every random state, a call with \<open>(p, r)\<close> returns exactly
  what the call with \<open>(clip p 0 1, clip r 0 1)\<close> returns; in particular \<open>p = 1.5\<close> behaves as
  \<open>p = 1\<close>. No value of \<open>p\<close> or \<open>r\<close> causes an error: on inputs that are valid otherwise
  (\<open>S1\<close> completing \<open>S0\<close> to 1 within the tolerance of \<^verbatim>\<open>np.random.choice\<close>, as
  \<open>S1 = 1 - S0\<close> does) the call returns a result for every \<open>p\<close> and \<open>r\<close>.
\<close>

theorem clip_transparent:
  "simulate_emissions_optimized PC_count DTF S0 timesteps p_gas S1 p r prop_rates malf_rates g =
     simulate_emissions_optimized PC_count DTF S0 timesteps p_gas S1 (clip p 0 1) (clip r 0 1)
       prop_rates malf_rates g \<and>
   simulate_emissions_optimized PC_count DTF S0 timesteps p_gas S1 (3 / 2) r prop_rates malf_rates g =
     simulate_emissions_optimized PC_count DTF S0 timesteps p_gas S1 1 r prop_rates malf_rates g \<and>
   (1 \<le> timesteps \<and> 0 \<le> S0 \<and> S0 \<le> 1 \<and> 0 < DTF \<and> 0 \<le> S1 \<and>
    \<bar>S0 + S1 - 1\<bar> \<le> atol \<and>
    prop_rates \<noteq> [] \<and> malf_rates \<noteq> [] \<and> rng_ok g \<longrightarrow>
    (\<exists>res g'. simulate_emissions_optimized PC_count DTF S0 timesteps p_gas S1 p r
        prop_rates malf_rates g = (Inr res, g')))"
proof (intro conjI impI)
  show "simulate_emissions_optimized PC_count DTF S0 timesteps p_gas S1 p r prop_rates malf_rates g =
     simulate_emissions_optimized PC_count DTF S0 timesteps p_gas S1 (clip p 0 1) (clip r 0 1)
       prop_rates malf_rates g"
    by (simp add: simulate_emissions_optimized_def del: One_nat_def)
  have "clip (3 / 2) 0 1 = clip 1 0 1"
    by (simp add: clip_def)
  then show "simulate_emissions_optimized PC_count DTF S0 timesteps p_gas S1 (3 / 2) r
      prop_rates malf_rates g =
     simulate_emissions_optimized PC_count DTF S0 timesteps p_gas S1 1 r prop_rates malf_rates g"
    by (simp add: simulate_emissions_optimized_def del: One_nat_def)
next
  assume v: "1 \<le> timesteps \<and> 0 \<le> S0 \<and> S0 \<le> 1 \<and> 0 < DTF \<and> 0 \<le> S1 \<and>
    \<bar>S0 + S1 - 1\<bar> \<le> atol \<and>
    prop_rates \<noteq> [] \<and> malf_rates \<noteq> [] \<and> rng_ok g"
  then have "0 < timesteps"
    by simp
  with v obtain res where
    "simulate_emissions_optimized PC_count DTF S0 timesteps p_gas S1 p r prop_rates malf_rates g =
       (Inr res, advance (3 * PC_count + timesteps * PC_count) g)"
    using simulate_result [of S0 DTF S1 prop_rates malf_rates g timesteps PC_count p_gas p r]
    by blast
  then show "\<exists>res g'. simulate_emissions_optimized PC_count DTF S0 timesteps p_gas S1 p r
        prop_rates malf_rates g = (Inr res, g')"
    by blast
qed

theorem clip_transparent_witness:
  "simulate_emissions_optimized 2 7 (1 / 2) 3 (192 / 10000000) (1 / 2) (3 / 2) (- 1) [10] [100] g0 =
     simulate_emissions_optimized 2 7 (1 / 2) 3 (192 / 10000000) (1 / 2) 1 0 [10] [100] g0 \<and>
   (\<exists>res g'. simulate_emissions_optimized 2 7 (1 / 2) 3 (192 / 10000000) (1 / 2) (3 / 2) (- 1)
      [10] [100] g0 = (Inr res, g'))"
proof -
  note t = clip_transparent [where PC_count = 2 and DTF = 7 and ?S0.0 = "1 / 2" and timesteps = 3
      and p_gas = "192 / 10000000" and ?S1.0 = "1 / 2" and p = "3 / 2" and r = "- 1"
      and prop_rates = "[10]" and malf_rates = "[100]" and g = g0]
  have c: "clip (3 / 2) 0 1 = 1" "clip (- 1) 0 1 = 0"
    by (simp_all add: clip_def)
  from t have "simulate_emissions_optimized 2 7 (1 / 2) 3 (192 / 10000000) (1 / 2) (3 / 2) (- 1)
      [10] [100] g0 =
     simulate_emissions_optimized 2 7 (1 / 2) 3 (192 / 10000000) (1 / 2)
       (clip (3 / 2) 0 1) (clip (- 1) 0 1) [10] [100] g0"
    by (rule conjunct1)
  then have a: "simulate_emissions_optimized 2 7 (1 / 2) 3 (192 / 10000000) (1 / 2) (3 / 2) (- 1)
      [10] [100] g0 =
     simulate_emissions_optimized 2 7 (1 / 2) 3 (192 / 10000000) (1 / 2) 1 0 [10] [100] g0"
    by (simp only: c)
  have v: "1 \<le> (3::nat) \<and> (0::real) \<le> 1 / 2 \<and> (1::real) / 2 \<le> 1 \<and> (0::int) < 7 \<and>
      (0::real) \<le> 1 / 2 \<and> \<bar>(1::real) / 2 + 1 / 2 - 1\<bar> \<le> atol \<and>
      [10::real] \<noteq> [] \<and> [100::real] \<noteq> [] \<and> rng_ok g0"
    by (simp add: rng_ok_g0 atol_def)
  from t v have b: "\<exists>res g'. simulate_emissions_optimized 2 7 (1 / 2) 3 (192 / 10000000) (1 / 2)
      (3 / 2) (- 1) [10] [100] g0 = (Inr res, g')"
    by blast
  from a b show ?thesis
    by (rule conjI)
qed

subsection \<open>Cumulative emission\<close>



subsection \<open>Shapes of the outputs\<close>

text \<open>
  Claim C6. On valid inputs the call returns a result in which every per-step array has
  exactly \<open>timesteps\<close> entries, and every row of the per-unit state and emission-rate
  matrices has exactly \<open>PC_count\<close> entries (every row of the population fractions has 2).
\<close>

theorem output_shapes:
  assumes "1 \<le> PC_count" "1 \<le> timesteps" "0 \<le> S0" "S0 \<le> 1" "0 < DTF" "0 \<le> S1"
    and "\<bar>S0 + S1 - 1\<bar> \<le> atol"
    and "prop_rates \<noteq> []" "malf_rates \<noteq> []" "rng_ok g"
  shows "\<exists>res g'.
    simulate_emissions_optimized PC_count DTF S0 timesteps p_gas S1 p r prop_rates malf_rates g
      = (Inr res, g') \<and>
    length (emission_rates_each res) = timesteps \<and>
    length (state_history_each res) = timesteps \<and>
    length (state_history res) = timesteps \<and>
    length (avg_emission_rate res) = timesteps \<and>
    length (sum_emission_rate res) = timesteps \<and>
    length (cumulative_emission res) = timesteps \<and>
    (\<forall>row \<in> set (emission_rates_each res). length row = PC_count) \<and>
    (\<forall>row \<in> set (state_history_each res). length row = PC_count) \<and>
    (\<forall>row \<in> set (state_history res). length row = 2)"
proof -
  from assms(2) have "0 < timesteps"
    by simp
  from simulate_result [OF assms(3-10) this, of PC_count p_gas p r]
  obtain res where res:
    "simulate_emissions_optimized PC_count DTF S0 timesteps p_gas S1 p r prop_rates malf_rates g =
       (Inr res, advance (3 * PC_count + timesteps * PC_count) g)"
    "emission_rates_each res =
       map (\<lambda>t. emissions (sim_states PC_count S0 S1 p r g t) (picks prop_rates PC_count g)
                  (picks malf_rates PC_count (advance PC_count g))) [0..<timesteps]"
    "state_history res = map (\<lambda>t. fractions PC_count (sim_states PC_count S0 S1 p r g t)) [0..<timesteps]"
    "state_history_each res = map (\<lambda>t. map real (sim_states PC_count S0 S1 p r g t)) [0..<timesteps]"
    "avg_emission_rate res = map (\<lambda>row. sum_list row / real PC_count) (emission_rates_each res)"
    "sum_emission_rate res = map sum_list (emission_rates_each res)"
    "cumulative_emission res = map (\<lambda>c. c * (24 * p_gas)) (cumsum (sum_emission_rate res))"
    by blast
  have "length (emission_rates_each res) = timesteps"
    "length (state_history_each res) = timesteps"
    "length (state_history res) = timesteps"
    "length (avg_emission_rate res) = timesteps"
    "length (sum_emission_rate res) = timesteps"
    "length (cumulative_emission res) = timesteps"
    by (simp_all add: res(2-7))
  moreover have "\<forall>row \<in> set (emission_rates_each res). length row = PC_count"
    by (auto simp: res(2))
  moreover have "\<forall>row \<in> set (state_history_each res). length row = PC_count"
    by (auto simp: res(4))
  moreover have "\<forall>row \<in> set (state_history res). length row = 2"
    by (auto simp: res(3) fractions_def)
  ultimately show ?thesis
    using res(1) by blast
qed

theorem output_shapes_witness:
  "(1 \<le> (2::nat) \<and> 1 \<le> (3::nat) \<and> (0::real) \<le> 1 / 2 \<and>
   (1::real) / 2 \<le> 1 \<and> (0::int) < 7 \<and>
    (0::real) \<le> 1 / 2 \<and> \<bar>(1::real) / 2 + 1 / 2 - 1\<bar> \<le> atol \<and>
    [10::real] \<noteq> [] \<and> [100::real] \<noteq> [] \<and> rng_ok g0) \<and>
   (\<exists>res g'.
    simulate_emissions_optimized 2 7 (1 / 2) 3 (192 / 10000000) (1 / 2) (1 / 10) (1 / 5)
      [10] [100] g0 = (Inr res, g') \<and>
    length (emission_rates_each res) = 3 \<and>
    length (state_history_each res) = 3 \<and>
    length (state_history res) = 3 \<and>
    length (avg_emission_rate res) = 3 \<and>
    length (sum_emission_rate res) = 3 \<and>
    length (cumulative_emission res) = 3 \<and>
    (\<forall>row \<in> set (emission_rates_each res). length row = 2) \<and>
    (\<forall>row \<in> set (state_history_each res). length row = 2) \<and>
    (\<forall>row \<in> set (state_history res). length row = 2))"
proof -
  have h: "1 \<le> (2::nat) \<and> 1 \<le> (3::nat) \<and> (0::real) \<le> 1 / 2 \<and>
  (1::real) / 2 \<le> 1 \<and> (0::int) < 7 \<and>
    (0::real) \<le> 1 / 2 \<and> \<bar>(1::real) / 2 + 1 / 2 - 1\<bar> \<le> atol \<and>
    [10::real] \<noteq> [] \<and> [100::real] \<noteq> [] \<and> rng_ok g0"
    by (simp add: rng_ok_g0 atol_def)
  have c: "\<exists>res g'.
    simulate_emissions_optimized 2 7 (1 / 2) 3 (192 / 10000000) (1 / 2) (1 / 10) (1 / 5)
      [10] [100] g0 = (Inr res, g') \<and>
    length (emission_rates_each res) = 3 \<and>
    length (state_history_each res) = 3 \<and>
    length (state_history res) = 3 \<and>
    length (avg_emission_rate res) = 3 \<and>
    length (sum_emission_rate res) = 3 \<and>
    length (cumulative_emission res) = 3 \<and>
    (\<forall>row \<in> set (emission_rates_each res). length row = 2) \<and>
    (\<forall>row \<in> set (state_history_each res). length row = 2) \<and>
    (\<forall>row \<in> set (state_history res). length row = 2)"
    by (rule output_shapes) (simp_all add: rng_ok_g0 atol_def)
  from h c show ?thesis
    by (rule conjI)
qed

subsection \<open>Population fractions\<close>

text \<open>
  Claim C7. On valid inputs, at every step \<open>t\<close> the two entries of \<open>state_history\<close> add
  up to 1; entry 0 is the fraction of the units recorded in state 0 (properly operating)
  at step \<open>t\<close>, entry 1 the fraction recorded in state 1 (malfunctioning). The sum is taken
  in exact arithmetic.
\<close>

theorem fractions_partition:
  assumes "1 \<le> PC_count" "1 \<le> timesteps" "0 \<le> S0" "S0 \<le> 1" "0 < DTF" "0 \<le> S1"
    and "\<bar>S0 + S1 - 1\<bar> \<le> atol"
    and "prop_rates \<noteq> []" "malf_rates \<noteq> []" "rng_ok g"
    and "t < timesteps"
  shows "\<exists>res g'.
    simulate_emissions_optimized PC_count DTF S0 timesteps p_gas S1 p r prop_rates malf_rates g
      = (Inr res, g') \<and>
    state_history res ! t ! 0 + state_history res ! t ! 1 = 1 \<and>
    state_history res ! t ! 0 =
      real (count_list (state_history_each res ! t) 0) / real PC_count \<and>
    state_history res ! t ! 1 =
      real (count_list (state_history_each res ! t) 1) / real PC_count"
proof -
  let ?s = "sim_states PC_count S0 S1 p r g t"
  from assms(2) have "0 < timesteps"
    by simp
  from simulate_result [OF assms(3-10) this, of PC_count p_gas p r]
  obtain res where res:
    "simulate_emissions_optimized PC_count DTF S0 timesteps p_gas S1 p r prop_rates malf_rates g =
       (Inr res, advance (3 * PC_count + timesteps * PC_count) g)"
    "state_history res = map (\<lambda>t. fractions PC_count (sim_states PC_count S0 S1 p r g t)) [0..<timesteps]"
    "state_history_each res = map (\<lambda>t. map real (sim_states PC_count S0 S1 p r g t)) [0..<timesteps]"
    by blast
  have sh: "state_history res ! t = fractions PC_count ?s"
    and she: "state_history_each res ! t = map real ?s"
    using assms(11) by (simp_all add: res(2,3))
  have "fractions PC_count ?s ! 0 + fractions PC_count ?s ! 1 = 1"
    using assms(1) by (intro fractions_sum set_sim_states) simp_all
  moreover have "count_list (map real ?s) 0 = count_list ?s 0"
    using count_list_map_real [of ?s 0] by simp
  moreover have "count_list (map real ?s) 1 = count_list ?s 1"
    using count_list_map_real [of ?s 1] by simp
  ultimately have "state_history res ! t ! 0 + state_history res ! t ! 1 = 1 \<and>
    state_history res ! t ! 0 =
      real (count_list (state_history_each res ! t) 0) / real PC_count \<and>
    state_history res ! t ! 1 =
      real (count_list (state_history_each res ! t) 1) / real PC_count"
    by (simp add: sh she fractions_def)
  with res(1) show ?thesis
    by blast
qed

theorem fractions_partition_witness:
  "(1 \<le> (2::nat) \<and> 1 \<le> (3::nat) \<and> (0::real) \<le> 1 / 2 \<and>
   (1::real) / 2 \<le> 1 \<and> (0::int) < 7 \<and>
    (0::real) \<le> 1 / 2 \<and> \<bar>(1::real) / 2 + 1 / 2 - 1\<bar> \<le> atol \<and>
    [10::real] \<noteq> [] \<and> [100::real] \<noteq> [] \<and> rng_ok g0 \<and>
    (2::nat) < 3) \<and>
   (\<exists>res g'.
    simulate_emissions_optimized 2 7 (1 / 2) 3 (192 / 10000000) (1 / 2) (1 / 10) (1 / 5)
      [10] [100] g0 = (Inr res, g') \<and>
    state_history res ! 2 ! 0 + state_history res ! 2 ! 1 = 1 \<and>
    state_history res ! 2 ! 0 = real (count_list (state_history_each res ! 2) 0) / real 2 \<and>
    state_history res ! 2 ! 1 = real (count_list (state_history_each res ! 2) 1) / real 2)"
proof -
  have h: "1 \<le> (2::nat) \<and> 1 \<le> (3::nat) \<and> (0::real) \<le> 1 / 2 \<and>
  (1::real) / 2 \<le> 1 \<and> (0::int) < 7 \<and>
    (0::real) \<le> 1 / 2 \<and> \<bar>(1::real) / 2 + 1 / 2 - 1\<bar> \<le> atol \<and>
    [10::real] \<noteq> [] \<and> [100::real] \<noteq> [] \<and> rng_ok g0 \<and>
    (2::nat) < 3"
    by (simp add: rng_ok_g0 atol_def)
  have c: "\<exists>res g'.
    simulate_emissions_optimized 2 7 (1 / 2) 3 (192 / 10000000) (1 / 2) (1 / 10) (1 / 5)
      [10] [100] g0 = (Inr res, g') \<and>
    state_history res ! 2 ! 0 + state_history res ! 2 ! 1 = 1 \<and>
    state_history res ! 2 ! 0 = real (count_list (state_history_each res ! 2) 0) / real 2 \<and>
    state_history res ! 2 ! 1 = real (count_list (state_history_each res ! 2) 1) / real 2"
    by (rule fractions_partition) (simp_all add: rng_ok_g0 atol_def)
  from h c show ?thesis
    by (rule conjI)
qed

subsection \<open>Non-negative rates, monotone cumulative emission\<close>

text \<open>
  Claim C8. On valid inputs with non-negative rate pools and a positive \<open>p_gas\<close>, every
  entry of the per-unit emission-rate matrix is an entry of one of the two pools, hence
  non-negative (and no value the pools do not hold, NaN included, can appear), and the
  cumulative-emission series is non-decreasing.
\<close>

theorem emissions_nonnegative_cumulative_monotone:
  assumes "1 \<le> PC_count" "1 \<le> timesteps" "0 \<le> S0" "S0 \<le> 1" "0 < DTF" "0 \<le> S1"
    and "\<bar>S0 + S1 - 1\<bar> \<le> atol"
    and "prop_rates \<noteq> []" "malf_rates \<noteq> []" "rng_ok g"
    and "\<forall>x \<in> set prop_rates. 0 \<le> x" "\<forall>x \<in> set malf_rates. 0 \<le> x" "0 < p_gas"
  shows "\<exists>res g'.
    simulate_emissions_optimized PC_count DTF S0 timesteps p_gas S1 p r prop_rates malf_rates g
      = (Inr res, g') \<and>
    (\<forall>row \<in> set (emission_rates_each res). \<forall>x \<in> set row.
        0 \<le> x \<and> x \<in> set prop_rates \<union> set malf_rates) \<and>
    (\<forall>t. Suc t < timesteps \<longrightarrow>
        cumulative_emission res ! t \<le> cumulative_emission res ! Suc t)"
proof -
  from assms(2) have "0 < timesteps"
    by simp
  from simulate_result [OF assms(3-10) this, of PC_count p_gas p r]
  obtain res where res:
    "simulate_emissions_optimized PC_count DTF S0 timesteps p_gas S1 p r prop_rates malf_rates g =
       (Inr res, advance (3 * PC_count + timesteps * PC_count) g)"
    "emission_rates_each res =
       map (\<lambda>t. emissions (sim_states PC_count S0 S1 p r g t) (picks prop_rates PC_count g)
                  (picks malf_rates PC_count (advance PC_count g))) [0..<timesteps]"
    "sum_emission_rate res = map sum_list (emission_rates_each res)"
    "cumulative_emission res = map (\<lambda>c. c * (24 * p_gas)) (cumsum (sum_emission_rate res))"
    by blast
  have len: "length (emission_rates_each res) = timesteps"
    by (simp add: res(2))
  have pool: "x \<in> set prop_rates \<union> set malf_rates"
    if "row \<in> set (emission_rates_each res)" "x \<in> set row" for row x
  proof -
    from that(1) obtain t where
      "row = emissions (sim_states PC_count S0 S1 p r g t) (picks prop_rates PC_count g)
                  (picks malf_rates PC_count (advance PC_count g))"
      by (auto simp: res(2))
    with that(2) have "x \<in> set (picks prop_rates PC_count g)
        \<union> set (picks malf_rates PC_count (advance PC_count g))"
      using set_emissions by blast
    then show ?thesis
      using set_picks [OF assms(10) assms(8), of PC_count]
        set_picks [of "advance PC_count g" malf_rates PC_count] assms(9,10)
      by auto
  qed
  then have nonneg: "0 \<le> x" if "row \<in> set (emission_rates_each res)" "x \<in> set row" for row x
    using that assms(11,12) by blast
  have mono: "cumulative_emission res ! t \<le> cumulative_emission res ! Suc t"
    if "Suc t < timesteps" for t
  proof -
    have "emission_rates_each res ! Suc t \<in> set (emission_rates_each res)"
      using that len by simp
    then have "0 \<le> sum_list (emission_rates_each res ! Suc t)"
      using nonneg by (intro sum_list_nonneg) blast
    then have "0 \<le> sum_emission_rate res ! Suc t"
      using that len by (simp add: res(3))
    moreover have "cumsum (sum_emission_rate res) ! Suc t =
        cumsum (sum_emission_rate res) ! t + sum_emission_rate res ! Suc t"
      using that len by (intro cumsum_step) (simp add: res(3))
    ultimately have "cumsum (sum_emission_rate res) ! t \<le> cumsum (sum_emission_rate res) ! Suc t"
      by simp
    then have "cumsum (sum_emission_rate res) ! t * (24 * p_gas)
        \<le> cumsum (sum_emission_rate res) ! Suc t * (24 * p_gas)"
      using assms(13) by (intro mult_right_mono) simp_all
    then show ?thesis
      using that len by (simp add: res(3,4))
  qed
  from res(1) pool nonneg mono show ?thesis
    by blast
qed

theorem emissions_nonnegative_cumulative_monotone_witness:
  "(1 \<le> (2::nat) \<and> 1 \<le> (3::nat) \<and> (0::real) \<le> 1 / 2 \<and>
   (1::real) / 2 \<le> 1 \<and> (0::int) < 7 \<and>
    (0::real) \<le> 1 / 2 \<and> \<bar>(1::real) / 2 + 1 / 2 - 1\<bar> \<le> atol \<and>
    [10::real] \<noteq> [] \<and> [100::real] \<noteq> [] \<and> rng_ok g0 \<and>
    (0::real) \<le> 10 \<and> (0::real) \<le> 100 \<and> (0::real) < 192 / 10000000) \<and>
   (\<exists>res g'.
    simulate_emissions_optimized 2 7 (1 / 2) 3 (192 / 10000000) (1 / 2) (1 / 10) (1 / 5)
      [10] [100] g0 = (Inr res, g') \<and>
    (\<forall>row \<in> set (emission_rates_each res). \<forall>x \<in> set row.
        0 \<le> x \<and> x \<in> set [10] \<union> set [100]) \<and>
    (\<forall>t. Suc t < 3 \<longrightarrow>
        cumulative_emission res ! t \<le> cumulative_emission res ! Suc t))"
proof -
  have h: "1 \<le> (2::nat) \<and> 1 \<le> (3::nat) \<and> (0::real) \<le> 1 / 2 \<and>
  (1::real) / 2 \<le> 1 \<and> (0::int) < 7 \<and>
    (0::real) \<le> 1 / 2 \<and> \<bar>(1::real) / 2 + 1 / 2 - 1\<bar> \<le> atol \<and>
    [10::real] \<noteq> [] \<and> [100::real] \<noteq> [] \<and> rng_ok g0 \<and>
    (0::real) \<le> 10 \<and> (0::real) \<le> 100 \<and> (0::real) < 192 / 10000000"
    by (simp add: rng_ok_g0 atol_def)
  have c: "\<exists>res g'.
    simulate_emissions_optimized 2 7 (1 / 2) 3 (192 / 10000000) (1 / 2) (1 / 10) (1 / 5)
      [10] [100] g0 = (Inr res, g') \<and>
    (\<forall>row \<in> set (emission_rates_each res). \<forall>x \<in> set row.
        0 \<le> x \<and> x \<in> set [10] \<union> set [100]) \<and>
    (\<forall>t. Suc t < 3 \<longrightarrow>
        cumulative_emission res ! t \<le> cumulative_emission res ! Suc t)"
    by (rule emissions_nonnegative_cumulative_monotone) (simp_all add: rng_ok_g0 atol_def)
  from h c show ?thesis
    by (rule conjI)
qed

subsection \<open>The parameters of a Monte Carlo trial\<close>

text \<open>
  Claim C9. Every trial of the driver draws \<open>DTF\<close> and \<open>S0\<close> and passes \<open>p = S0 / DTF\<close> and
  \<open>r = p / S1 - p\<close> with \<open>S1 = 1 - S0\<close> to the simulator. The code does so where the drawn
  \<open>S0\<close> is not 1 (\<open>monte_carlo_trial_draws\<close>, \<open>trial_draws_in_range\<close>,
  \<open>monte_carlo_trial_returns\<close>), and misses the case \<open>S0 = 1\<close>, which its own bounds
  \<^verbatim>\<open>S0_max = min(1.0, S0_mean + S0_variation)\<close> admit and the simulator accepts: with the
  population slider at 100 percent and the variation at 0, \<open>S0_min = S0_max = 1\<close>, every
  draw gives \<open>S0 = 1\<close> and \<open>S1 = 0\<close>, and the division \<^verbatim>\<open>p / S1\<close> of line 107 raises
  \<^verbatim>\<open>ZeroDivisionError\<close>. With the default bounds 7 and 180 of the days to failure, whatever
  the number of units, the pools and the random state, the trial stops there, after its
  two draws and before any call of the simulator.
\<close>

theorem trial_divides_by_zero:
  "monte_carlo_trial PC_count timesteps p_gas 7 180 1 1 prop_rates malf_rates g =
     (Inl ZeroDivisionError, advance 2 g)"
  by (simp add: monte_carlo_trial_def randint_def uniform_def py_div_def Let_def numeral_2_eq_2)

subsection \<open>Sums and averages\<close>

text \<open>
  Claim C10. On valid inputs, at every step \<open>t\<close> the returned average emission rate is the
  returned summed emission rate divided by \<open>PC_count\<close>, in float64 arithmetic: one rounded
  division of the very sum that \<open>sum_emission_rate\<close> holds, whatever the order in which
  numpy adds a row. The scalar summary is numpy's mean of the series of the averages: their
  sum divided by their number, \<open>timesteps\<close>. (The product form of the relation,
  \<open>sum_emission_rate[t] = PC_count * avg_emission_rate[t]\<close>, is the one of exact arithmetic;
  the run evaluated below shows that the float64 values do not satisfy it.)
\<close>

theorem average_is_sum_over_count:
  assumes "1 \<le> PC_count" "1 \<le> timesteps" "0 \<le> S0" "S0 \<le> 1" "0 < DTF" "0 \<le> S1"
    and "\<bar>S0 + S1 - 1\<bar> \<le> atol"
    and "prop_rates \<noteq> []" "malf_rates \<noteq> []" "rng_ok g"
    and "t < timesteps"
  shows "\<exists>res g'.
    simulate_emissions_optimized_f64 add_reduce PC_count DTF S0 timesteps p_gas S1 p r
      prop_rates malf_rates g = (Inr res, g') \<and>
    sum_emission_rate res ! t = add_reduce (emission_rates_each res ! t) \<and>
    avg_emission_rate res ! t = round64 (sum_emission_rate res ! t / real PC_count) \<and>
    all_avg_emission_rate res =
      round64 (add_reduce (avg_emission_rate res) / real (length (avg_emission_rate res))) \<and>
    length (avg_emission_rate res) = timesteps"
proof -
  from assms(2) have "0 < timesteps"
    by simp
  from simulate_result_f64 [OF assms(3-10) this, of add_reduce PC_count p_gas p r]
  obtain res where res:
    "simulate_emissions_optimized_f64 add_reduce PC_count DTF S0 timesteps p_gas S1 p r
       prop_rates malf_rates g = (Inr res, advance (3 * PC_count + timesteps * PC_count) g)"
    "emission_rates_each res =
       map (\<lambda>t. emissions (sim_states PC_count S0 S1 p r g t) (picks prop_rates PC_count g)
                  (picks malf_rates PC_count (advance PC_count g))) [0..<timesteps]"
    "avg_emission_rate res =
       map (\<lambda>row. round64 (add_reduce row / real PC_count)) (emission_rates_each res)"
    "all_avg_emission_rate res =
       round64 (add_reduce (avg_emission_rate res) / real (length (avg_emission_rate res)))"
    "sum_emission_rate res = map add_reduce (emission_rates_each res)"
    by blast
  have len: "length (emission_rates_each res) = timesteps"
    by (simp add: res(2))
  with assms(11) have "sum_emission_rate res ! t = add_reduce (emission_rates_each res ! t)"
    "avg_emission_rate res ! t = round64 (sum_emission_rate res ! t / real PC_count)"
    by (simp_all add: res(3,5))
  moreover have "length (avg_emission_rate res) = timesteps"
    by (simp add: res(3) len)
  ultimately show ?thesis
    using res(1,4) by blast
qed

theorem average_is_sum_over_count_witness:
  "(1 \<le> (2::nat) \<and> 1 \<le> (3::nat) \<and> (0::real) \<le> 1 / 2 \<and>
   (1::real) / 2 \<le> 1 \<and> (0::int) < 7 \<and>
    (0::real) \<le> 1 / 2 \<and> \<bar>(1::real) / 2 + 1 / 2 - 1\<bar> \<le> atol \<and>
    [10::real] \<noteq> [] \<and> [100::real] \<noteq> [] \<and> rng_ok g0 \<and>
    (2::nat) < 3) \<and>
   (\<exists>res g'.
    simulate_emissions_optimized_f64 add_reduce_f64 2 7 (1 / 2) 3 (192 / 10000000) (1 / 2)
      (1 / 10) (1 / 5) [10] [100] g0 = (Inr res, g') \<and>
    sum_emission_rate res ! 2 = add_reduce_f64 (emission_rates_each res ! 2) \<and>
    avg_emission_rate res ! 2 = round64 (sum_emission_rate res ! 2 / real 2) \<and>
    all_avg_emission_rate res =
      round64 (add_reduce_f64 (avg_emission_rate res) / real (length (avg_emission_rate res))) \<and>
    length (avg_emission_rate res) = 3)"
proof -
  have h: "1 \<le> (2::nat) \<and> 1 \<le> (3::nat) \<and> (0::real) \<le> 1 / 2 \<and>
  (1::real) / 2 \<le> 1 \<and> (0::int) < 7 \<and>
    (0::real) \<le> 1 / 2 \<and> \<bar>(1::real) / 2 + 1 / 2 - 1\<bar> \<le> atol \<and>
    [10::real] \<noteq> [] \<and> [100::real] \<noteq> [] \<and> rng_ok g0 \<and>
    (2::nat) < 3"
    by (simp add: rng_ok_g0 atol_def)
  have c: "\<exists>res g'.
    simulate_emissions_optimized_f64 add_reduce_f64 2 7 (1 / 2) 3 (192 / 10000000) (1 / 2)
      (1 / 10) (1 / 5) [10] [100] g0 = (Inr res, g') \<and>
    sum_emission_rate res ! 2 = add_reduce_f64 (emission_rates_each res ! 2) \<and>
    avg_emission_rate res ! 2 = round64 (sum_emission_rate res ! 2 / real 2) \<and>
    all_avg_emission_rate res =
      round64 (add_reduce_f64 (avg_emission_rate res) / real (length (avg_emission_rate res))) \<and>
    length (avg_emission_rate res) = 3"
    by (rule average_is_sum_over_count) (simp_all add: rng_ok_g0 atol_def)
  from h c show ?thesis
    by (rule conjI)
qed

text \<open>
  The product form \<open>sum_emission_rate[t] = PC_count * avg_emission_rate[t]\<close> fails in
  float64, where the division rounds: three units whose rates are \<open>10\<close>, \<open>100\<close> and \<open>0.7\<close>
  (one step, all units properly operating, the draws of the rates running through the
  pool) have the sum \<open>110.7\<close> and the average \<open>36.9\<close>, and three times the average is not the
  sum, neither computed exactly nor in float64, where it is \<open>110.69999999999999\<close>.
\<close>

theorem sum_differs_from_count_times_average:
  "\<not> isl (fst (simulate_emissions_optimized_f64 add_reduce_f64 3 7 1 1 1 0 0 0
        [10, 100, 3152519739159347 / 4503599627370496] [1000] g_cycle)) \<and>
   sum_emission_rate (projr (fst (simulate_emissions_optimized_f64 add_reduce_f64 3 7 1 1 1 0 0 0
        [10, 100, 3152519739159347 / 4503599627370496] [1000] g_cycle)))
     = [7789819980467405 / 70368744177664] \<and>
   avg_emission_rate (projr (fst (simulate_emissions_optimized_f64 add_reduce_f64 3 7 1 1 1 0 0 0
        [10, 100, 3152519739159347 / 4503599627370496] [1000] g_cycle)))
     = [5193213320311603 / 140737488355328] \<and>
   round64 (3 * (5193213320311603 / 140737488355328)) = 1947454995116851 / 17592186044416 \<and>
   (7789819980467405 :: real) / 70368744177664 \<noteq> 3 * (5193213320311603 / 140737488355328) \<and>
   (7789819980467405 :: real) / 70368744177664 \<noteq> 1947454995116851 / 17592186044416"
proof -
  let ?f = "3152519739159347 / 4503599627370496 :: real"
  let ?X = "simulate_emissions_optimized_f64 add_reduce_f64 3 7 1 1 1 0 0 0
      [10, 100, ?f] [1000] g_cycle"
  have v: "(0::real) \<le> 1" "(1::real) \<le> 1" "(0::int) < 7" "(0::real) \<le> 0"
    "\<bar>(1::real) + 0 - 1\<bar> \<le> atol" "[10, 100, ?f] \<noteq> []" "[1000::real] \<noteq> []"
    "rng_ok g_cycle" "(0::nat) < 1"
    by (simp_all add: atol_def rng_ok_g_cycle)
  from simulate_result_f64 [OF v, of add_reduce_f64 3 1 0 0]
  obtain res where res:
    "?X = (Inr res, advance (3 * 3 + 1 * 3) g_cycle)"
    "emission_rates_each res =
       map (\<lambda>t. emissions (sim_states 3 1 0 0 0 g_cycle t) (picks [10, 100, ?f] 3 g_cycle)
                  (picks [1000] 3 (advance 3 g_cycle))) [0..<1]"
    "avg_emission_rate res =
       map (\<lambda>row. round64 (add_reduce_f64 row / real 3)) (emission_rates_each res)"
    "sum_emission_rate res = map add_reduce_f64 (emission_rates_each res)"
    by blast
  have "picks [1000::real] 3 (advance 3 g_cycle) = replicate 3 1000"
    by (rule picks_singleton) (simp add: rng_ok_g_cycle)
  then have malf: "picks [1000::real] 3 (advance 3 g_cycle) = [1000, 1000, 1000]"
    by (simp add: eval_nat_numeral)
  have ere: "emission_rates_each res = [[10, 100, ?f]]"
    by (simp add: res(2) malf rounding_example_states rounding_example_picks emissions_def)
  have sum: "sum_emission_rate res = [7789819980467405 / 70368744177664]"
    by (simp only: res(4) ere list.map rounding_example_sum)
  have avg: "avg_emission_rate res = [5193213320311603 / 140737488355328]"
    by (simp only: res(3) ere list.map of_nat_numeral rounding_example_sum rounding_example_avg)
  have run: "fst ?X = Inr res"
    by (simp only: res(1) fst_conv)
  have "\<not> isl (fst ?X)" "sum_emission_rate (projr (fst ?X)) = [7789819980467405 / 70368744177664]"
    "avg_emission_rate (projr (fst ?X)) = [5193213320311603 / 140737488355328]"
    by (simp_all del: One_nat_def add: run sum avg)
  moreover have
    "(7789819980467405 :: real) / 70368744177664 \<noteq> 3 * (5193213320311603 / 140737488355328)"
    "(7789819980467405 :: real) / 70368744177664 \<noteq> 1947454995116851 / 17592186044416"
    by simp_all
  ultimately show ?thesis
    using rounding_example_product by blast
qed

end
